theory Spec2Isabelle
  imports
    Main
    "HOL-Library.Word"
    "HOL-Library.AList"
    "HOL-Library.Sublist"
    "HOL-Library.Char_ord"
    "HOL-Library.List_Lexorder"
    "HOL-Library.Multiset"
begin

unbundle bit_operations_syntax

section \<open>The model versioning helper of the MLOps platform\<close>

text \<open>
  This theory embeds the class \<^verbatim>\<open>ModelVersioning\<close> of \<^verbatim>\<open>src/api/main.py\<close> (and the
  older copy in \<^verbatim>\<open>src/versioning/model_versioning.py\<close>). The class is file-system
  bookkeeping, so the state is a file system: a tree of directories and plain files with
  the working directory of the process. Every operation takes it and, when it writes,
  returns it. A raised exception is a value \<open>Inl e\<close>; an operation that writes returns its
  outcome together with the file system as it is when the call ends, also when it raises.

  Scope of the model:
  \<^item> a path is a string, as in the code: \<^verbatim>\<open>os.path.join\<close> is the POSIX function on
    strings, and a path is resolved component by component the way the kernel does it (an
    empty component and \<^verbatim>\<open>.\<close> stay, \<^verbatim>\<open>..\<close> goes to the parent, a leading \<^verbatim>\<open>/\<close> starts at the
    root), so a model name or a version id that is empty, a dot or holds separators leads
    where it leads for the code;
  \<^item> there are plain files and directories only (no links, permissions or timestamps);
  \<^item> strings and file contents are byte strings (\<^typ>\<open>string\<close>); text is UTF-8, whose byte
    order is the code-point order Python compares strings by;
  \<^item> Python values are the values JSON has, with integers for numbers (no floats);
  \<^item> \<^verbatim>\<open>json.dumps\<close> and \<^verbatim>\<open>json.loads\<close> are library code: they are parameters \<open>dumps\<close> and
    \<open>loads\<close> of the operations that call them, \<open>loads\<close> returning \<open>None\<close> where the library
    raises a decoding error;
  \<^item> \<^verbatim>\<open>datetime.utcnow()\<close> is an input: each reading of the clock is an argument.
\<close>

subsection \<open>Exceptions\<close>

datatype pyerror =
    FileNotFoundError
  | IsADirectoryError
  | NotADirectoryError
  | FileExistsError
  | SameFileError
  | OSError
  | ValueError
  | KeyError
  | TypeError
  | AttributeError
  | JSONDecodeError

definition rbind :: "pyerror + 'a \<Rightarrow> ('a \<Rightarrow> pyerror + 'b) \<Rightarrow> pyerror + 'b" where
  "rbind r f = (case r of Inl e \<Rightarrow> Inl e | Inr x \<Rightarrow> f x)"

subsection \<open>The file system\<close>

text \<open>
  The tree, and a place in it: the names that lead there from the root. \<open>put_at\<close> sets the
  node at a place whose parent is a directory, \<open>remove_at\<close> takes the entry away.
\<close>

datatype node = File string | Dir "(string \<times> node) list"

type_synonym path = "string list"

fun lookup :: "node \<Rightarrow> path \<Rightarrow> node option" where
  "lookup n [] = Some n"
| "lookup (File c) (x # xs) = None"
| "lookup (Dir es) (x # xs) =
     (case map_of es x of None \<Rightarrow> None | Some n \<Rightarrow> lookup n xs)"

fun put_at :: "node \<Rightarrow> path \<Rightarrow> node \<Rightarrow> node" where
  "put_at n [] new = new"
| "put_at (File c) (x # xs) new = File c"
| "put_at (Dir es) (x # xs) new =
     (if xs = [] then Dir (AList.update x new es)
      else case map_of es x of
             None \<Rightarrow> Dir es
           | Some n \<Rightarrow> Dir (AList.update x (put_at n xs new) es))"

fun remove_at :: "node \<Rightarrow> path \<Rightarrow> node" where
  "remove_at n [] = n"
| "remove_at (File c) (x # xs) = File c"
| "remove_at (Dir es) (x # xs) =
     (if xs = [] then Dir (AList.delete x es)
      else case map_of es x of
             None \<Rightarrow> Dir es
           | Some n \<Rightarrow> Dir (AList.update x (remove_at n xs) es))"

record filesystem =
  root :: node
  cwd :: path

text \<open>
  Path strings. \<open>split_slash\<close> is \<^verbatim>\<open>p.split("/")\<close>, \<open>join2\<close> one step of
  \<^verbatim>\<open>posixpath.join\<close> (a component that starts with \<^verbatim>\<open>/\<close> replaces what came before; a
  separator is put in unless the left part is empty or ends in one), \<open>basename\<close> what
  follows the last separator. A name is what a directory entry can be called.
\<close>

fun split_slash :: "string \<Rightarrow> string list" where
  "split_slash [] = [[]]"
| "split_slash (c # cs) =
     (if c = CHR ''/'' then [] # split_slash cs
      else case split_slash cs of
             [] \<Rightarrow> [[c]]
           | x # xs \<Rightarrow> (c # x) # xs)"

definition join2 :: "string \<Rightarrow> string \<Rightarrow> string" where
  "join2 a b =
     (if take 1 b = ''/'' then b
      else if a = [] \<or> last a = CHR ''/'' then a @ b
      else a @ ''/'' @ b)"

definition os_path_join :: "string \<Rightarrow> string list \<Rightarrow> string" where
  "os_path_join a ps = foldl join2 a ps"

definition basename :: "string \<Rightarrow> string" where
  "basename p = last (split_slash p)"

definition is_name :: "string \<Rightarrow> bool" where
  "is_name c = (c \<noteq> [] \<and> c \<noteq> ''.'' \<and> c \<noteq> ''..'' \<and> CHR ''/'' \<notin> set c)"

text \<open>
  Path resolution: every component is looked up in a directory (a missing one is
  \<^verbatim>\<open>ENOENT\<close>, a plain file \<^verbatim>\<open>ENOTDIR\<close>); the last component need not exist. The empty path
  does not resolve.
\<close>

definition step :: "path \<Rightarrow> string \<Rightarrow> path" where
  "step cur c =
     (if c = [] \<or> c = ''.'' then cur else if c = ''..'' then butlast cur else cur @ [c])"

fun walk :: "node \<Rightarrow> path \<Rightarrow> string list \<Rightarrow> pyerror + path" where
  "walk r cur [] = Inr cur"
| "walk r cur (c # cs) =
     (case lookup r cur of
        None \<Rightarrow> Inl FileNotFoundError
      | Some (File x) \<Rightarrow> Inl NotADirectoryError
      | Some (Dir es) \<Rightarrow> walk r (step cur c) cs)"

definition start :: "filesystem \<Rightarrow> string \<Rightarrow> path" where
  "start fs p = (if take 1 p = ''/'' then [] else cwd fs)"

definition resolve :: "filesystem \<Rightarrow> string \<Rightarrow> pyerror + path" where
  "resolve fs p =
     (if p = [] then Inl FileNotFoundError
      else walk (root fs) (start fs p) (split_slash p))"

text \<open>\<^verbatim>\<open>os.stat\<close>: the place a path leads to and what is there.\<close>

definition stat :: "filesystem \<Rightarrow> string \<Rightarrow> pyerror + path \<times> node" where
  "stat fs p =
     (case resolve fs p of
        Inl e \<Rightarrow> Inl e
      | Inr q \<Rightarrow>
          (case lookup (root fs) q of
             None \<Rightarrow> Inl FileNotFoundError
           | Some n \<Rightarrow> Inr (q, n)))"

text \<open>
  \<^verbatim>\<open>os.path.exists\<close> and \<^verbatim>\<open>os.path.isdir\<close> (false on every error of \<^verbatim>\<open>os.stat\<close>), and
  \<^verbatim>\<open>os.path.samefile\<close> as \<^verbatim>\<open>shutil\<close> uses it (false when either path cannot be examined).
\<close>

definition path_exists :: "filesystem \<Rightarrow> string \<Rightarrow> bool" where
  "path_exists fs p = (case stat fs p of Inl e \<Rightarrow> False | Inr qn \<Rightarrow> True)"

definition path_isdir :: "filesystem \<Rightarrow> string \<Rightarrow> bool" where
  "path_isdir fs p = (case stat fs p of Inr (q, Dir es) \<Rightarrow> True | _ \<Rightarrow> False)"

definition samefile :: "filesystem \<Rightarrow> string \<Rightarrow> string \<Rightarrow> bool" where
  "samefile fs a b =
     (case stat fs a of
        Inl e \<Rightarrow> False
      | Inr (qa, na) \<Rightarrow> (case stat fs b of Inl e \<Rightarrow> False | Inr (qb, nb) \<Rightarrow> qa = qb))"

text \<open>
  \<^verbatim>\<open>open(p, "rb").read()\<close>, \<^verbatim>\<open>os.path.getsize\<close> (a directory has a size too; which one is
  up to the file system, here 4096) and \<^verbatim>\<open>os.listdir\<close>, the names in the order the
  directory holds them.
\<close>

definition read_file :: "filesystem \<Rightarrow> string \<Rightarrow> pyerror + string" where
  "read_file fs p =
     (case stat fs p of
        Inl e \<Rightarrow> Inl e
      | Inr (q, Dir es) \<Rightarrow> Inl IsADirectoryError
      | Inr (q, File c) \<Rightarrow> Inr c)"

definition getsize :: "filesystem \<Rightarrow> string \<Rightarrow> pyerror + int" where
  "getsize fs p =
     (case stat fs p of
        Inl e \<Rightarrow> Inl e
      | Inr (q, Dir es) \<Rightarrow> Inr 4096
      | Inr (q, File c) \<Rightarrow> Inr (int (length c)))"

definition listdir :: "filesystem \<Rightarrow> string \<Rightarrow> pyerror + string list" where
  "listdir fs p =
     (case stat fs p of
        Inl e \<Rightarrow> Inl e
      | Inr (q, File c) \<Rightarrow> Inl NotADirectoryError
      | Inr (q, Dir es) \<Rightarrow> Inr (map fst es))"

text \<open>
  \<^verbatim>\<open>open(p, "w")\<close> followed by writing \<open>c\<close>: the file is created in an existing directory
  or replaced. (The paths this class opens for writing end in a file name; a path that
  ends in a separator is not among them.)
\<close>

definition write_file :: "filesystem \<Rightarrow> string \<Rightarrow> string \<Rightarrow> pyerror + filesystem" where
  "write_file fs p c =
     (case resolve fs p of
        Inl e \<Rightarrow> Inl e
      | Inr q \<Rightarrow>
          (case lookup (root fs) q of
             Some (Dir es) \<Rightarrow> Inl IsADirectoryError
           | _ \<Rightarrow> Inr (fs\<lparr>root := put_at (root fs) q (File c)\<rparr>)))"

text \<open>
  \<^verbatim>\<open>os.makedirs(p, exist_ok=True)\<close>: the path is walked and every missing directory on the
  way is made, also the ones a later \<^verbatim>\<open>..\<close> leaves again. A plain file on the way is
  \<^verbatim>\<open>NotADirectoryError\<close>, a plain file at the end \<^verbatim>\<open>FileExistsError\<close>; what was made before
  the error stays.
\<close>

fun makedirs_walk :: "node \<Rightarrow> path \<Rightarrow> string list \<Rightarrow> (pyerror + unit) \<times> node" where
  "makedirs_walk r cur [] =
     (case lookup r cur of
        Some (File x) \<Rightarrow> (Inl FileExistsError, r)
      | _ \<Rightarrow> (Inr (), r))"
| "makedirs_walk r cur (c # cs) =
     (if c = [] then makedirs_walk r cur cs
      else case lookup r cur of
             None \<Rightarrow> (Inl FileNotFoundError, r)
           | Some (File x) \<Rightarrow> (Inl NotADirectoryError, r)
           | Some (Dir es) \<Rightarrow>
               (if lookup r (step cur c) = None
                then makedirs_walk (put_at r (step cur c) (Dir [])) (step cur c) cs
                else makedirs_walk r (step cur c) cs))"

definition makedirs :: "filesystem \<Rightarrow> string \<Rightarrow> (pyerror + unit) \<times> filesystem" where
  "makedirs fs p =
     (if p = [] then (Inl FileNotFoundError, fs)
      else case makedirs_walk (root fs) (start fs p) (split_slash p) of
             (res, r) \<Rightarrow> (res, fs\<lparr>root := r\<rparr>))"

text \<open>
  \<^verbatim>\<open>shutil.copy2(src, dst)\<close>: into \<open>dst\<close> when it is a directory, under the name of the
  source; onto \<open>dst\<close> otherwise. Copying a file onto itself raises \<^verbatim>\<open>SameFileError\<close>
  before anything is opened.
\<close>

definition copy2 :: "filesystem \<Rightarrow> string \<Rightarrow> string \<Rightarrow> pyerror + filesystem" where
  "copy2 fs src dst =
     (let dst' = (if path_isdir fs dst then os_path_join dst [basename src] else dst)
      in if samefile fs src dst' then Inl SameFileError
         else case read_file fs src of
                Inl e \<Rightarrow> Inl e
              | Inr c \<Rightarrow> write_file fs dst' c)"

text \<open>
  \<^verbatim>\<open>shutil.rmtree(p)\<close>: everything in the directory is removed, then \<^verbatim>\<open>os.rmdir(p)\<close> is
  called with the path as it was given. \<^verbatim>\<open>rmdir\<close> refuses a path whose last component is
  \<^verbatim>\<open>.\<close> or \<^verbatim>\<open>..\<close> and the root, and by then the path may not resolve any more; the
  directory is empty all the same.
\<close>

definition last_name :: "string \<Rightarrow> string" where
  "last_name p =
     (case filter (\<lambda>c. c \<noteq> []) (split_slash p) of [] \<Rightarrow> [] | c # cs \<Rightarrow> last (c # cs))"

definition rmdir :: "filesystem \<Rightarrow> string \<Rightarrow> pyerror + filesystem" where
  "rmdir fs p =
     (case stat fs p of
        Inl e \<Rightarrow> Inl e
      | Inr (q, File c) \<Rightarrow> Inl NotADirectoryError
      | Inr (q, Dir es) \<Rightarrow>
          (if es \<noteq> [] \<or> q = [] \<or> last_name p = ''.'' \<or> last_name p = ''..''
           then Inl OSError
           else Inr (fs\<lparr>root := remove_at (root fs) q\<rparr>)))"

definition rmtree :: "filesystem \<Rightarrow> string \<Rightarrow> (pyerror + unit) \<times> filesystem" where
  "rmtree fs p =
     (case stat fs p of
        Inl e \<Rightarrow> (Inl e, fs)
      | Inr (q, File c) \<Rightarrow> (Inl NotADirectoryError, fs)
      | Inr (q, Dir es) \<Rightarrow>
          (let fs1 = fs\<lparr>root := put_at (root fs) q (Dir [])\<rparr>
           in case rmdir fs1 p of
                Inl e \<Rightarrow> (Inl e, fs1)
              | Inr fs2 \<Rightarrow> (Inr (), fs2)))"

subsection \<open>SHA-256 (\<^verbatim>\<open>hashlib.sha256\<close>)\<close>

text \<open>
  The digest of FIPS 180-4 on 32-bit words. A hash object is the bytes it has been fed:
  \<^verbatim>\<open>update\<close> appends and \<^verbatim>\<open>hexdigest\<close> hashes what was fed, as the library documents.
\<close>

type_synonym w32 = "32 word"

definition rotr :: "nat \<Rightarrow> w32 \<Rightarrow> w32" where
  "rotr n x = (drop_bit n x) OR (push_bit (32 - n) x)"

definition ch :: "w32 \<Rightarrow> w32 \<Rightarrow> w32 \<Rightarrow> w32" where
  "ch x y z = (x AND y) XOR (NOT x AND z)"

definition maj :: "w32 \<Rightarrow> w32 \<Rightarrow> w32 \<Rightarrow> w32" where
  "maj x y z = (x AND y) XOR (x AND z) XOR (y AND z)"

definition big_sigma0 :: "w32 \<Rightarrow> w32" where
  "big_sigma0 x = rotr 2 x XOR rotr 13 x XOR rotr 22 x"

definition big_sigma1 :: "w32 \<Rightarrow> w32" where
  "big_sigma1 x = rotr 6 x XOR rotr 11 x XOR rotr 25 x"

definition small_sigma0 :: "w32 \<Rightarrow> w32" where
  "small_sigma0 x = rotr 7 x XOR rotr 18 x XOR drop_bit 3 x"

definition small_sigma1 :: "w32 \<Rightarrow> w32" where
  "small_sigma1 x = rotr 17 x XOR rotr 19 x XOR drop_bit 10 x"

text \<open>
  The round constants (from the cube roots of the first 64 primes) and the initial hash
  value (from the square roots of the first 8), in decimal.
\<close>

definition sha256_k :: "w32 list" where
  "sha256_k =
    [1116352408, 1899447441, 3049323471, 3921009573, 961987163, 1508970993, 2453635748,
     2870763221, 3624381080, 310598401, 607225278, 1426881987, 1925078388, 2162078206,
     2614888103, 3248222580, 3835390401, 4022224774, 264347078, 604807628, 770255983,
     1249150122, 1555081692, 1996064986, 2554220882, 2821834349, 2952996808, 3210313671,
     3336571891, 3584528711, 113926993, 338241895, 666307205, 773529912, 1294757372,
     1396182291, 1695183700, 1986661051, 2177026350, 2456956037, 2730485921, 2820302411,
     3259730800, 3345764771, 3516065817, 3600352804, 4094571909, 275423344, 430227734,
     506948616, 659060556, 883997877, 958139571, 1322822218, 1537002063, 1747873779,
     1955562222, 2024104815, 2227730452, 2361852424, 2428436474, 2756734187, 3204031479,
     3329325298]"

definition sha256_h0 :: "w32 list" where
  "sha256_h0 =
    [1779033703, 3144134277, 1013904242, 2773480762, 1359893119, 2600822924, 528734635,
     1541459225]"

definition length_bytes :: "nat \<Rightarrow> w32 list" where
  "length_bytes n =
     (let bits = (push_bit 3 (of_nat n) :: 64 word)
      in map (\<lambda>i. ucast (drop_bit (8 * i) bits AND 255)) (rev [0..<8]))"

definition sha256_pad :: "w32 list \<Rightarrow> w32 list" where
  "sha256_pad m =
     m @ [128] @ replicate ((119 - length m mod 64) mod 64) 0 @ length_bytes (length m)"

definition be_word :: "w32 list \<Rightarrow> w32" where
  "be_word bs = foldl (\<lambda>acc b. push_bit 8 acc OR b) 0 bs"

fun chop :: "nat \<Rightarrow> 'a list \<Rightarrow> 'a list list" where
  "chop n [] = []"
| "chop n (x # xs) =
     (if n = 0 then [] else take n (x # xs) # chop n (drop n (x # xs)))"

fun schedule :: "nat \<Rightarrow> w32 list \<Rightarrow> w32 list" where
  "schedule 0 w = w"
| "schedule (Suc n) w =
     (let t = length w in
      schedule n (w @ [small_sigma1 (w ! (t - 2)) + w ! (t - 7)
                       + small_sigma0 (w ! (t - 15)) + w ! (t - 16)]))"

fun sha256_round :: "w32 list \<Rightarrow> w32 \<times> w32 \<Rightarrow> w32 list" where
  "sha256_round [a, b, c, d, e, f, g, h] (k, w) =
     (let t1 = h + big_sigma1 e + ch e f g + k + w;
          t2 = big_sigma0 a + maj a b c
      in [t1 + t2, a, b, c, d + t1, e, f, g])"
| "sha256_round s kw = s"

definition sha256_block :: "w32 list \<Rightarrow> w32 list \<Rightarrow> w32 list" where
  "sha256_block hs blk =
     (let w = schedule 48 (map be_word (chop 4 blk))
      in map2 (+) hs (foldl sha256_round hs (zip sha256_k w)))"

definition sha256 :: "w32 list \<Rightarrow> w32 list" where
  "sha256 m = foldl sha256_block sha256_h0 (chop 64 (sha256_pad m))"

definition hex_digit :: "nat \<Rightarrow> char" where
  "hex_digit n = ''0123456789abcdef'' ! (n mod 16)"

definition hex32 :: "w32 \<Rightarrow> string" where
  "hex32 w = map (\<lambda>i. hex_digit (unat (drop_bit (4 * i) w AND 15))) (rev [0..<8])"

definition sha256_hexdigest :: "string \<Rightarrow> string" where
  "sha256_hexdigest s = concat (map hex32 (sha256 (map of_char s)))"

type_synonym hash_object = string

definition hash_update :: "hash_object \<Rightarrow> string \<Rightarrow> hash_object" where
  "hash_update h chunk = h @ chunk"

definition hexdigest :: "hash_object \<Rightarrow> string" where
  "hexdigest h = sha256_hexdigest h"

subsection \<open>The clock (\<^verbatim>\<open>datetime\<close>)\<close>

record datetime =
  year :: nat
  month :: nat
  day :: nat
  hour :: nat
  minute :: nat
  second :: nat
  microsecond :: nat

definition valid_datetime :: "datetime \<Rightarrow> bool" where
  "valid_datetime t =
     (1 \<le> year t \<and> year t \<le> 9999 \<and> 1 \<le> month t \<and> month t \<le> 12 \<and>
      1 \<le> day t \<and> day t \<le> 31 \<and> hour t < 24 \<and> minute t < 60 \<and> second t < 60 \<and>
      microsecond t < 1000000)"

definition digit_char :: "nat \<Rightarrow> char" where
  "digit_char n = ''0123456789'' ! (n mod 10)"

fun dec :: "nat \<Rightarrow> string" where
  "dec n = (if n < 10 then [digit_char n] else dec (n div 10) @ [digit_char n])"

declare dec.simps [simp del]

definition zfill :: "nat \<Rightarrow> string \<Rightarrow> string" where
  "zfill w s = replicate (w - length s) (CHR ''0'') @ s"

text \<open>
  \<^verbatim>\<open>strftime("%Y%m%d_%H%M%S")\<close> and \<^verbatim>\<open>isoformat()\<close>. The year is padded to four digits, as
  the Python documentation has it.
\<close>

definition strftime :: "datetime \<Rightarrow> string" where
  "strftime t =
     zfill 4 (dec (year t)) @ zfill 2 (dec (month t)) @ zfill 2 (dec (day t)) @ ''_'' @
     zfill 2 (dec (hour t)) @ zfill 2 (dec (minute t)) @ zfill 2 (dec (second t))"

definition isoformat :: "datetime \<Rightarrow> string" where
  "isoformat t =
     zfill 4 (dec (year t)) @ ''-'' @ zfill 2 (dec (month t)) @ ''-'' @
     zfill 2 (dec (day t)) @ ''T'' @ zfill 2 (dec (hour t)) @ '':'' @
     zfill 2 (dec (minute t)) @ '':'' @ zfill 2 (dec (second t)) @
     (if microsecond t = 0 then [] else ''.'' @ zfill 6 (dec (microsecond t)))"

subsection \<open>Python values\<close>

text \<open>
  The values \<^verbatim>\<open>json.load\<close> returns and \<^verbatim>\<open>json.dump\<close> accepts. A dictionary keeps its keys
  in insertion order; \<^verbatim>\<open>None\<close> is \<open>JNull\<close>.
\<close>

datatype json =
    JNull
  | JBool bool
  | JInt int
  | JStr string
  | JArr "json list"
  | JObj "(string \<times> json) list"

fun py_truthy :: "json \<Rightarrow> bool" where
  "py_truthy JNull = False"
| "py_truthy (JBool b) = b"
| "py_truthy (JInt i) = (i \<noteq> 0)"
| "py_truthy (JStr s) = (s \<noteq> [])"
| "py_truthy (JArr xs) = (xs \<noteq> [])"
| "py_truthy (JObj kvs) = (kvs \<noteq> [])"

text \<open>\<^verbatim>\<open>x[k]\<close> and \<^verbatim>\<open>x.get(k, d)\<close> for a string key \<open>k\<close>.\<close>

fun py_getitem :: "json \<Rightarrow> string \<Rightarrow> pyerror + json" where
  "py_getitem (JObj kvs) k =
     (case map_of kvs k of None \<Rightarrow> Inl KeyError | Some v \<Rightarrow> Inr v)"
| "py_getitem x k = Inl TypeError"

fun py_get :: "json \<Rightarrow> string \<Rightarrow> json \<Rightarrow> pyerror + json" where
  "py_get (JObj kvs) k d = (case map_of kvs k of None \<Rightarrow> Inr d | Some v \<Rightarrow> Inr v)"
| "py_get x k d = Inl AttributeError"

text \<open>Numbers: \<^verbatim>\<open>bool\<close> is a subclass of \<^verbatim>\<open>int\<close>.\<close>

fun num_of :: "json \<Rightarrow> int option" where
  "num_of (JInt i) = Some i"
| "num_of (JBool b) = Some (if b then 1 else 0)"
| "num_of x = None"

definition py_sub :: "json \<Rightarrow> json \<Rightarrow> pyerror + json" where
  "py_sub a b =
     (case num_of a of
        None \<Rightarrow> Inl TypeError
      | Some i \<Rightarrow> (case num_of b of None \<Rightarrow> Inl TypeError | Some j \<Rightarrow> Inr (JInt (i - j))))"

text \<open>\<^verbatim>\<open>a == b\<close>: dictionaries are equal when they have the same keys with equal values.\<close>

function py_eq :: "json \<Rightarrow> json \<Rightarrow> bool" where
  "py_eq JNull b = (b = JNull)"
| "py_eq (JBool x) b = (num_of b = Some (if x then 1 else 0))"
| "py_eq (JInt i) b = (num_of b = Some i)"
| "py_eq (JStr s) b = (b = JStr s)"
| "py_eq (JArr xs) b = (case b of JArr ys \<Rightarrow> list_all2 py_eq xs ys | _ \<Rightarrow> False)"
| "py_eq (JObj kvs) b =
     (case b of
        JObj kvs' \<Rightarrow>
          list_all (\<lambda>k. case map_of kvs k of
                          None \<Rightarrow> False
                        | Some x \<Rightarrow> (case map_of kvs' k of
                                       None \<Rightarrow> False
                                     | Some y \<Rightarrow> py_eq x y)) (map fst kvs)
          \<and> list_all (\<lambda>k. map_of kvs k \<noteq> None) (map fst kvs')
      | _ \<Rightarrow> False)"
  by pat_completeness auto
termination
proof (relation "measure (\<lambda>(a, b). size a)")
  show "wf (measure (\<lambda>(a, b). size a))" by simp
next
  fix xs :: "json list" and b :: json and ys :: "json list" and x y :: json
  assume "x \<in> set xs"
  then have "size x < Suc (size_list size xs)"
    by (induction xs) auto
  then show "((x, y), (JArr xs, b)) \<in> measure (\<lambda>(a, b). size a)" by simp
next
  fix kvs :: "(string \<times> json) list" and b :: json and kvs' k x y
  assume "map_of kvs k = Some x"
  then have "size x < Suc (size_list (size_prod (\<lambda>a. 0) size) kvs)"
    by (induction kvs) (auto split: if_splits)
  then show "((x, y), (JObj kvs, b)) \<in> measure (\<lambda>(a, b). size a)" by simp
qed

text \<open>
  \<^verbatim>\<open>a < b\<close>: defined between two strings, two numbers and two lists (by their first
  unequal elements, then by length); a \<^verbatim>\<open>TypeError\<close> otherwise. \<^verbatim>\<open>a > b\<close> is \<^verbatim>\<open>b < a\<close>.
\<close>

fun py_lt :: "json \<Rightarrow> json \<Rightarrow> pyerror + bool"
  and py_lt_list :: "json list \<Rightarrow> json list \<Rightarrow> pyerror + bool" where
  "py_lt (JStr s) (JStr t) = Inr (s < t)"
| "py_lt (JArr xs) (JArr ys) = py_lt_list xs ys"
| "py_lt a b =
     (case num_of a of
        None \<Rightarrow> Inl TypeError
      | Some i \<Rightarrow> (case num_of b of None \<Rightarrow> Inl TypeError | Some j \<Rightarrow> Inr (i < j)))"
| "py_lt_list [] [] = Inr False"
| "py_lt_list [] (y # ys) = Inr True"
| "py_lt_list (x # xs) [] = Inr False"
| "py_lt_list (x # xs) (y # ys) = (if py_eq x y then py_lt_list xs ys else py_lt x y)"

definition py_gt :: "json \<Rightarrow> json \<Rightarrow> pyerror + bool" where
  "py_gt a b = py_lt b a"

text \<open>
  \<^verbatim>\<open>sorted(xs, key=f, reverse=True)\<close>. The keys of all elements are computed first, in order.
  The list is then reversed, sorted ascending and stably with \<^verbatim>\<open><\<close> on the keys, and
  reversed again. A comparison that raises makes the call raise; which comparisons the
  library makes is not modelled, only that two keys that do not compare cannot both be
  placed: the call raises when some pair of keys does not compare.
\<close>

fun map_result :: "('a \<Rightarrow> pyerror + 'b) \<Rightarrow> 'a list \<Rightarrow> pyerror + 'b list" where
  "map_result f [] = Inr []"
| "map_result f (x # xs) =
     (case f x of
        Inl e \<Rightarrow> Inl e
      | Inr y \<Rightarrow> (case map_result f xs of Inl e \<Rightarrow> Inl e | Inr ys \<Rightarrow> Inr (y # ys)))"

definition comparable :: "json \<Rightarrow> json \<Rightarrow> bool" where
  "comparable a b = (\<not> isl (py_lt a b) \<and> \<not> isl (py_lt b a))"

fun all_comparable :: "json list \<Rightarrow> bool" where
  "all_comparable [] = True"
| "all_comparable (k # ks) = (list_all (comparable k) ks \<and> all_comparable ks)"

fun insort_lt :: "('a \<Rightarrow> 'a \<Rightarrow> bool) \<Rightarrow> 'a \<Rightarrow> 'a list \<Rightarrow> 'a list" where
  "insort_lt lt x [] = [x]"
| "insort_lt lt x (y # ys) = (if lt y x then y # insort_lt lt x ys else x # y # ys)"

definition sort_lt :: "('a \<Rightarrow> 'a \<Rightarrow> bool) \<Rightarrow> 'a list \<Rightarrow> 'a list" where
  "sort_lt lt xs = foldr (insort_lt lt) xs []"

definition key_lt :: "json \<times> 'a \<Rightarrow> json \<times> 'a \<Rightarrow> bool" where
  "key_lt a b = (py_lt (fst a) (fst b) = Inr True)"

definition py_sorted_reverse :: "(json \<Rightarrow> pyerror + json) \<Rightarrow> json list \<Rightarrow> pyerror + json list" where
  "py_sorted_reverse f xs =
     (case map_result f xs of
        Inl e \<Rightarrow> Inl e
      | Inr ks \<Rightarrow>
          (if all_comparable ks
           then Inr (map snd (rev (sort_lt key_lt (rev (zip ks xs)))))
           else Inl TypeError))"

text \<open>\<^verbatim>\<open>str.endswith\<close>.\<close>

definition endswith :: "string \<Rightarrow> string \<Rightarrow> bool" where
  "endswith s ending = (drop (length s - length ending) s = ending)"

subsection \<open>\<^verbatim>\<open>class ModelVersioning\<close>\<close>

definition versions_dir :: string where
  "versions_dir = ''model_versions''"

text \<open>\<^verbatim>\<open>__init__\<close>: the versions directory is created when it is missing.\<close>

definition init :: "filesystem \<Rightarrow> (pyerror + unit) \<times> filesystem" where
  "init fs = makedirs fs versions_dir"

text \<open>
  \<^verbatim>\<open>calculate_file_hash\<close>: the file is read in chunks of 4096 bytes until a read returns
  nothing, and every chunk is fed to the hash object.
\<close>

function read_chunks :: "string \<Rightarrow> string list" where
  "read_chunks bytes =
     (if bytes = [] then [] else take 4096 bytes # read_chunks (drop 4096 bytes))"
  by pat_completeness auto
termination
  by (relation "measure length") auto

declare read_chunks.simps [simp del]

definition calculate_file_hash :: "filesystem \<Rightarrow> string \<Rightarrow> pyerror + string" where
  "calculate_file_hash fs file_path =
     (case read_file fs file_path of
        Inl e \<Rightarrow> Inl e
      | Inr bytes \<Rightarrow> Inr (hexdigest (foldl hash_update [] (read_chunks bytes))))"

text \<open>\<^verbatim>\<open>generate_version_id\<close>; \<open>now\<close> is the clock reading it takes.\<close>

definition generate_version_id :: "filesystem \<Rightarrow> datetime \<Rightarrow> string \<Rightarrow> pyerror + string" where
  "generate_version_id fs now model_file =
     (let timestamp = strftime now
      in case calculate_file_hash fs model_file of
           Inl e \<Rightarrow> Inl e
         | Inr h \<Rightarrow> Inr (''v'' @ timestamp @ ''_'' @ take 8 h))"

text \<open>
  \<^verbatim>\<open>create_version\<close> of \<^verbatim>\<open>src/api/main.py\<close>. \<open>now_id\<close> is the clock reading of
  \<^verbatim>\<open>generate_version_id\<close>, \<open>now_meta\<close> the later one of \<^verbatim>\<open>created_at\<close>.
\<close>

definition version_metadata ::
  "string \<Rightarrow> string \<Rightarrow> datetime \<Rightarrow> json \<Rightarrow> string \<Rightarrow> int \<Rightarrow> json" where
  "version_metadata version model_name now_meta metadata file_hash file_size =
     JObj [(''version'', JStr version),
           (''model_name'', JStr model_name),
           (''created_at'', JStr (isoformat now_meta)),
           (''created_by'', JStr ''asarekings''),
           (''metadata'', metadata),
           (''file_hash'', JStr file_hash),
           (''file_size_bytes'', JInt file_size),
           (''platform'', JStr ''Enhanced MLOps Platform'')]"

definition create_version ::
  "(json \<Rightarrow> string) \<Rightarrow> filesystem \<Rightarrow> datetime \<Rightarrow> datetime \<Rightarrow> string \<Rightarrow> string \<Rightarrow> json
     \<Rightarrow> (pyerror + string) \<times> filesystem" where
  "create_version dumps fs now_id now_meta model_name model_file metadata =
     (if \<not> path_exists fs model_file then (Inl FileNotFoundError, fs)
      else
        case generate_version_id fs now_id model_file of
          Inl e \<Rightarrow> (Inl e, fs)
        | Inr version \<Rightarrow>
            (let version_dir = os_path_join versions_dir [model_name, version]
             in case makedirs fs version_dir of
                  (Inl e, fs1) \<Rightarrow> (Inl e, fs1)
                | (Inr u, fs1) \<Rightarrow>
                    (case copy2 fs1 model_file version_dir of
                       Inl e \<Rightarrow> (Inl e, fs1)
                     | Inr fs2 \<Rightarrow>
                         (case calculate_file_hash fs2 model_file of
                            Inl e \<Rightarrow> (Inl e, fs2)
                          | Inr file_hash \<Rightarrow>
                              (case getsize fs2 model_file of
                                 Inl e \<Rightarrow> (Inl e, fs2)
                               | Inr file_size \<Rightarrow>
                                   (case write_file fs2
                                           (os_path_join version_dir [''metadata.json''])
                                           (dumps (version_metadata version model_name
                                                     now_meta metadata file_hash file_size)) of
                                      Inl e \<Rightarrow> (Inl e, fs2)
                                    | Inr fs3 \<Rightarrow> (Inr version, fs3)))))))"

text \<open>
  \<^verbatim>\<open>create_version\<close> of \<^verbatim>\<open>src/versioning/model_versioning.py\<close>: no test that the file
  exists, and a metadata record without the size and the platform.
\<close>

definition mv_version_metadata ::
  "string \<Rightarrow> string \<Rightarrow> datetime \<Rightarrow> json \<Rightarrow> string \<Rightarrow> json" where
  "mv_version_metadata version model_name now_meta metadata file_hash =
     JObj [(''version'', JStr version),
           (''model_name'', JStr model_name),
           (''created_at'', JStr (isoformat now_meta)),
           (''created_by'', JStr ''asarekings''),
           (''metadata'', metadata),
           (''file_hash'', JStr file_hash)]"


text \<open>\<^verbatim>\<open>json.load\<close> on an opened file.\<close>

definition json_load ::
  "(string \<Rightarrow> json option) \<Rightarrow> filesystem \<Rightarrow> string \<Rightarrow> pyerror + json" where
  "json_load loads fs p =
     (case read_file fs p of
        Inl e \<Rightarrow> Inl e
      | Inr text \<Rightarrow> (case loads text of None \<Rightarrow> Inl JSONDecodeError | Some v \<Rightarrow> Inr v))"

text \<open>\<^verbatim>\<open>list_versions\<close> (the same text in both files): the loop, then the sort.\<close>

fun load_versions ::
  "(string \<Rightarrow> json option) \<Rightarrow> filesystem \<Rightarrow> string \<Rightarrow> string list \<Rightarrow> pyerror + json list" where
  "load_versions loads fs model_dir [] = Inr []"
| "load_versions loads fs model_dir (version_id # rest) =
     (let metadata_file = os_path_join model_dir [version_id, ''metadata.json'']
      in if path_exists fs metadata_file
         then case json_load loads fs metadata_file of
                Inl e \<Rightarrow> Inl e
              | Inr v \<Rightarrow>
                  (case load_versions loads fs model_dir rest of
                     Inl e \<Rightarrow> Inl e
                   | Inr vs \<Rightarrow> Inr (v # vs))
         else load_versions loads fs model_dir rest)"

definition list_versions ::
  "(string \<Rightarrow> json option) \<Rightarrow> filesystem \<Rightarrow> string \<Rightarrow> pyerror + json list" where
  "list_versions loads fs model_name =
     (let model_dir = os_path_join versions_dir [model_name]
      in if \<not> path_exists fs model_dir then Inr []
         else case listdir fs model_dir of
                Inl e \<Rightarrow> Inl e
              | Inr names \<Rightarrow>
                  (case load_versions loads fs model_dir names of
                     Inl e \<Rightarrow> Inl e
                   | Inr versions \<Rightarrow>
                       py_sorted_reverse (\<lambda>x. py_getitem x ''created_at'') versions))"

definition get_latest_version ::
  "(string \<Rightarrow> json option) \<Rightarrow> filesystem \<Rightarrow> string \<Rightarrow> pyerror + json option" where
  "get_latest_version loads fs model_name =
     (case list_versions loads fs model_name of
        Inl e \<Rightarrow> Inl e
      | Inr versions \<Rightarrow> Inr (case versions of [] \<Rightarrow> None | v # vs \<Rightarrow> Some v))"

text \<open>\<^verbatim>\<open>rollback_to_version\<close>.\<close>

definition rollback_to_version ::
  "filesystem \<Rightarrow> string \<Rightarrow> string \<Rightarrow> (pyerror + bool) \<times> filesystem" where
  "rollback_to_version fs model_name version_id =
     (let version_dir = os_path_join versions_dir [model_name, version_id]
      in if \<not> path_exists fs version_dir then (Inl ValueError, fs)
         else case listdir fs version_dir of
                Inl e \<Rightarrow> (Inl e, fs)
              | Inr names \<Rightarrow>
                  (case filter (\<lambda>f. endswith f ''.pkl'') names of
                     [] \<Rightarrow> (Inr False, fs)
                   | f # fs_rest \<Rightarrow>
                       (let source = os_path_join version_dir [f];
                            destination = os_path_join ''models'' [model_name @ ''_model.pkl'']
                        in case copy2 fs source destination of
                             Inl e \<Rightarrow> (Inl e, fs)
                           | Inr fs' \<Rightarrow> (Inr True, fs'))))"

text \<open>\<^verbatim>\<open>delete_version\<close>.\<close>

definition delete_version ::
  "filesystem \<Rightarrow> string \<Rightarrow> string \<Rightarrow> (pyerror + bool) \<times> filesystem" where
  "delete_version fs model_name version_id =
     (let version_dir = os_path_join versions_dir [model_name, version_id]
      in if path_exists fs version_dir
         then case rmtree fs version_dir of
                (Inl e, fs') \<Rightarrow> (Inl e, fs')
              | (Inr u, fs') \<Rightarrow> (Inr True, fs')
         else (Inr False, fs))"

text \<open>
  \<^verbatim>\<open>get_version_comparison\<close>. The entries of the returned dictionary are evaluated in
  the order they are written, so the first one that raises decides the exception.
\<close>

definition load_metadata ::
  "(string \<Rightarrow> json option) \<Rightarrow> filesystem \<Rightarrow> string \<Rightarrow> string \<Rightarrow> pyerror + json" where
  "load_metadata loads fs model_name version =
     (let v_path = os_path_join versions_dir [model_name, version, ''metadata.json'']
      in if path_exists fs v_path then json_load loads fs v_path else Inr JNull)"

definition version_entry :: "string \<Rightarrow> json \<Rightarrow> pyerror + json" where
  "version_entry version v_data =
     rbind (py_getitem v_data ''created_at'') (\<lambda>created_at.
     rbind (py_getitem v_data ''file_hash'') (\<lambda>file_hash.
     rbind (py_get v_data ''file_size_bytes'' (JInt 0)) (\<lambda>file_size.
     rbind (py_get v_data ''metadata'' (JObj [])) (\<lambda>metadata.
       Inr (JObj [(''version'', JStr version),
                  (''created_at'', created_at),
                  (''file_hash'', file_hash),
                  (''file_size'', file_size),
                  (''metadata'', metadata)])))))"

definition comparison_entry :: "json \<Rightarrow> json \<Rightarrow> pyerror + json" where
  "comparison_entry v1_data v2_data =
     rbind (py_getitem v1_data ''file_hash'') (\<lambda>h1.
     rbind (py_getitem v2_data ''file_hash'') (\<lambda>h2.
     rbind (py_get v2_data ''file_size_bytes'' (JInt 0)) (\<lambda>s2.
     rbind (py_get v1_data ''file_size_bytes'' (JInt 0)) (\<lambda>s1.
     rbind (py_sub s2 s1) (\<lambda>size_difference.
     rbind (py_getitem v2_data ''created_at'') (\<lambda>c2.
     rbind (py_getitem v1_data ''created_at'') (\<lambda>c1.
     rbind (py_gt c2 c1) (\<lambda>time_difference.
       Inr (JObj [(''same_hash'', JBool (py_eq h1 h2)),
                  (''size_difference'', size_difference),
                  (''time_difference'', JBool time_difference)])))))))))"

definition get_version_comparison ::
  "(string \<Rightarrow> json option) \<Rightarrow> filesystem \<Rightarrow> string \<Rightarrow> string \<Rightarrow> string
     \<Rightarrow> pyerror + json" where
  "get_version_comparison loads fs model_name version1 version2 =
     rbind (load_metadata loads fs model_name version1) (\<lambda>v1_data.
     rbind (load_metadata loads fs model_name version2) (\<lambda>v2_data.
       if \<not> py_truthy v1_data \<or> \<not> py_truthy v2_data
       then Inr (JObj [(''error'', JStr ''One or both versions not found'')])
       else
         rbind (version_entry version1 v1_data) (\<lambda>version_1.
         rbind (version_entry version2 v2_data) (\<lambda>version_2.
         rbind (comparison_entry v1_data v2_data) (\<lambda>comparison.
           Inr (JObj [(''model_name'', JStr model_name),
                      (''version_1'', version_1),
                      (''version_2'', version_2),
                      (''comparison'', comparison),
                      (''compared_by'', JStr ''asarekings'')]))))))"

subsection \<open>Predicates used to state the properties\<close>

definition digit :: "char \<Rightarrow> bool" where
  "digit c = (c \<in> set ''0123456789'')"

definition hex :: "char \<Rightarrow> bool" where
  "hex c = (c \<in> set ''0123456789abcdef'')"

text \<open>The shape \<^verbatim>\<open>v<YYYYMMDD_HHMMSS>_<hash8>\<close> of a version id.\<close>

definition version_id_format :: "string \<Rightarrow> bool" where
  "version_id_format v =
     (length v = 25 \<and> take 1 v = ''v'' \<and> list_all digit (take 8 (drop 1 v)) \<and>
      take 1 (drop 9 v) = ''_'' \<and> list_all digit (take 6 (drop 10 v)) \<and>
      take 1 (drop 16 v) = ''_'' \<and> list_all hex (drop 17 v))"

subsection \<open>Example states\<close>

text \<open>
  The examples run in a file system whose root holds one directory, \<^verbatim>\<open>srv\<close>, the working
  directory of the process.
\<close>

definition in_workdir :: "node \<Rightarrow> filesystem" where
  "in_workdir t = \<lparr>root = Dir [(''srv'', t)], cwd = [''srv'']\<rparr>"

definition demo_fs :: filesystem where
  "demo_fs =
     in_workdir
       (Dir [(''models'', Dir [(''demo_model.pkl'', File ''X'')]), (''model_versions'', Dir [])])"

definition demo_time :: datetime where
  "demo_time =
     \<lparr>year = 2025, month = 6, day = 3, hour = 19, minute = 12, second = 59, microsecond = 0\<rparr>"

definition demo_version :: string where
  "demo_version = ''v20250603_191259_4b68ab38''"

text \<open>
  The metadata records of two versions of the model \<^verbatim>\<open>demo\<close> (of the contents \<^verbatim>\<open>X\<close> and
  \<^verbatim>\<open>Y\<close>), the texts \<^verbatim>\<open>json.dump(record, f, indent=2)\<close> writes for them, and the two
  library functions on these records and texts.
\<close>

definition demo_record :: json where
  "demo_record =
     version_metadata demo_version ''demo'' demo_time (JObj [])
       ''4b68ab3847feda7d6c62c1fbcbeebfa35eab7351ed5e78f4ddadea5df64b8015'' 1"

definition later_time :: datetime where
  "later_time =
     \<lparr>year = 2025, month = 6, day = 4, hour = 8, minute = 0, second = 0, microsecond = 0\<rparr>"

definition later_version :: string where
  "later_version = ''v20250604_080000_18f5384d''"

definition later_record :: json where
  "later_record =
     JObj [(''version'', JStr later_version),
           (''model_name'', JStr ''demo''),
           (''created_at'', JStr ''2025-06-04T08:00:00''),
           (''created_by'', JStr ''asarekings''),
           (''metadata'', JObj []),
           (''file_hash'',
            JStr ''18f5384d58bcb1bba0bcd9e6a6781d1a6ac2cc280c330ecbab6cb7931b721552''),
           (''file_size_bytes'', JInt 1),
           (''platform'', JStr ''Enhanced MLOps Platform'')]"

definition demo_text :: string where
  \<open>demo_text =
      ''{\<newline>'' @
      ''  "version": "v20250603_191259_4b68ab38",\<newline>'' @
      ''  "model_name": "demo",\<newline>'' @
      ''  "created_at": "2025-06-03T19:12:59",\<newline>'' @
      ''  "created_by": "asarekings",\<newline>'' @
      ''  "metadata": {},\<newline>'' @
      ''  "file_hash": "4b68ab3847feda7d6c62c1fbcbeebfa35eab7351ed5e78f4ddadea5df64b8015",\<newline>'' @
      ''  "file_size_bytes": 1,\<newline>'' @
      ''  "platform": "Enhanced MLOps Platform"\<newline>'' @
      ''}''\<close>

definition later_text :: string where
  \<open>later_text =
      ''{\<newline>'' @
      ''  "version": "v20250604_080000_18f5384d",\<newline>'' @
      ''  "model_name": "demo",\<newline>'' @
      ''  "created_at": "2025-06-04T08:00:00",\<newline>'' @
      ''  "created_by": "asarekings",\<newline>'' @
      ''  "metadata": {},\<newline>'' @
      ''  "file_hash": "18f5384d58bcb1bba0bcd9e6a6781d1a6ac2cc280c330ecbab6cb7931b721552",\<newline>'' @
      ''  "file_size_bytes": 1,\<newline>'' @
      ''  "platform": "Enhanced MLOps Platform"\<newline>'' @
      ''}''\<close>

text \<open>
  The record and the text of a second \<^verbatim>\<open>create_version\<close> of the same content half a second
  after the first one.
\<close>

definition again_time :: datetime where
  "again_time =
     \<lparr>year = 2025, month = 6, day = 3, hour = 19, minute = 12, second = 59,
      microsecond = 500000\<rparr>"

definition again_record :: json where
  "again_record =
     version_metadata demo_version ''demo'' again_time (JObj [])
       ''4b68ab3847feda7d6c62c1fbcbeebfa35eab7351ed5e78f4ddadea5df64b8015'' 1"

definition again_text :: string where
  \<open>again_text =
      ''{\<newline>'' @
      ''  "version": "v20250603_191259_4b68ab38",\<newline>'' @
      ''  "model_name": "demo",\<newline>'' @
      ''  "created_at": "2025-06-03T19:12:59.500000",\<newline>'' @
      ''  "created_by": "asarekings",\<newline>'' @
      ''  "metadata": {},\<newline>'' @
      ''  "file_hash": "4b68ab3847feda7d6c62c1fbcbeebfa35eab7351ed5e78f4ddadea5df64b8015",\<newline>'' @
      ''  "file_size_bytes": 1,\<newline>'' @
      ''  "platform": "Enhanced MLOps Platform"\<newline>'' @
      ''}''\<close>

definition demo_dumps :: "json \<Rightarrow> string" where
  "demo_dumps j =
     (if j = demo_record then demo_text else if j = later_record then later_text
      else if j = again_record then again_text else ''null'')"

definition demo_loads :: "string \<Rightarrow> json option" where
  "demo_loads s =
     (if s = demo_text then Some demo_record else if s = later_text then Some later_record
      else if s = again_text then Some again_record
      else if s = ''{}'' then Some (JObj []) else None)"


text \<open>The state after \<^verbatim>\<open>create_version("demo", "models/demo_model.pkl", {})\<close> in \<open>demo_fs\<close>.\<close>

definition demo_fs1 :: filesystem where
  "demo_fs1 =
     in_workdir
       (Dir [(''models'', Dir [(''demo_model.pkl'', File ''X'')]),
             (''model_versions'',
              Dir [(''demo'',
                    Dir [(demo_version,
                          Dir [(''demo_model.pkl'', File ''X''),
                               (''metadata.json'', File demo_text)])])])])"

text \<open>
  A store with two versions of \<^verbatim>\<open>demo\<close> and a directory without metadata, and a model
  without versions; the active artifact is the later content.
\<close>

definition store_fs :: filesystem where
  "store_fs =
     in_workdir
       (Dir [(''models'', Dir [(''demo_model.pkl'', File ''Y'')]),
             (''model_versions'',
              Dir [(''demo'',
                    Dir [(demo_version,
                          Dir [(''demo_model.pkl'', File ''X''),
                               (''metadata.json'', File demo_text)]),
                         (later_version,
                          Dir [(''demo_model.pkl'', File ''Y''),
                               (''metadata.json'', File later_text)]),
                         (''scratch'', Dir [])]),
                   (''empty'', Dir [])])])"

text \<open>The same store with the directory of \<^verbatim>\<open>demo\<close> emptied.\<close>

definition emptied_fs :: filesystem where
  "emptied_fs =
     in_workdir
       (Dir [(''models'', Dir [(''demo_model.pkl'', File ''Y'')]),
             (''model_versions'', Dir [(''demo'', Dir []), (''empty'', Dir [])])])"

text \<open>
  A store with damaged metadata: the file of model \<^verbatim>\<open>cut\<close> ends in the middle of the text,
  the file of model \<^verbatim>\<open>bare\<close> is an empty JSON object.
\<close>

definition broken_fs :: filesystem where
  \<open>broken_fs =
     in_workdir
       (Dir [(''model_versions'',
              Dir [(''cut'',
                    Dir [(demo_version,
                          Dir [(''metadata.json'', File ''{\<newline>  "version": "v2025'')])]),
                   (''bare'',
                    Dir [(demo_version, Dir [(''metadata.json'', File ''{}'')])])])])\<close>

text \<open>A source file that is itself named \<^verbatim>\<open>metadata.json\<close>.\<close>

definition export_fs :: filesystem where
  "export_fs =
     in_workdir
       (Dir [(''export'', Dir [(''metadata.json'', File ''X'')]), (''model_versions'', Dir [])])"

text \<open>A working directory without \<^verbatim>\<open>models\<close>, before and after a version is created.\<close>

definition tmp_fs :: filesystem where
  "tmp_fs =
     in_workdir (Dir [(''tmp'', Dir [(''a.pkl'', File ''X'')]), (''model_versions'', Dir [])])"

definition tmp_fs1 :: filesystem where
  "tmp_fs1 =
     in_workdir
       (Dir [(''tmp'', Dir [(''a.pkl'', File ''X'')]),
             (''model_versions'',
              Dir [(''demo'',
                    Dir [(demo_version,
                          Dir [(''a.pkl'', File ''X''),
                               (''metadata.json'', File demo_text)])])])])"

subsection \<open>Conditions on the store\<close>

text \<open>\<^verbatim>\<open>os.path.isfile\<close>.\<close>

definition path_isfile :: "filesystem \<Rightarrow> string \<Rightarrow> bool" where
  "path_isfile fs p = (case stat fs p of Inr (q, File c) \<Rightarrow> True | _ \<Rightarrow> False)"




text \<open>
  The metadata file of every version directory of the model, where it loads, records the
  name of its directory as its version id (what \<^verbatim>\<open>create_version\<close> writes).
\<close>

definition ids_match :: "(string \<Rightarrow> json option) \<Rightarrow> filesystem \<Rightarrow> string \<Rightarrow> bool" where
  "ids_match loads fs model_name =
     (case listdir fs (os_path_join versions_dir [model_name]) of
        Inl e \<Rightarrow> True
      | Inr names \<Rightarrow>
          list_all
            (\<lambda>d. case json_load loads fs
                         (os_path_join versions_dir [model_name, d, ''metadata.json'']) of
                   Inl e \<Rightarrow> True
                 | Inr r \<Rightarrow> py_getitem r ''version'' = Inr (JStr d))
            names)"

text \<open>
  A version record as \<^verbatim>\<open>get_version_comparison\<close> reads it: a dictionary with a timestamp
  string \<^verbatim>\<open>created_at\<close>, a \<^verbatim>\<open>file_hash\<close> and, when it has a \<^verbatim>\<open>file_size_bytes\<close>, a number
  there (the records of the older \<^verbatim>\<open>create_version\<close> have none).
\<close>

definition version_record :: "json \<Rightarrow> bool" where
  "version_record r =
     (case r of
        JObj kvs \<Rightarrow>
          (case map_of kvs ''created_at'' of Some (JStr s) \<Rightarrow> True | _ \<Rightarrow> False) \<and>
          map_of kvs ''file_hash'' \<noteq> None \<and>
          (case map_of kvs ''file_size_bytes'' of None \<Rightarrow> True | Some n \<Rightarrow> num_of n \<noteq> None)
      | _ \<Rightarrow> False)"

section \<open>Properties\<close>

subsection \<open>Hashing and formatting\<close>

lemma foldl_hash_update: "foldl hash_update acc (read_chunks bytes) = acc @ bytes"
proof (induction bytes arbitrary: acc rule: read_chunks.induct)
  case (1 bytes)
  show ?case
  proof (cases "bytes = []")
    case True
    then show ?thesis by (simp add: read_chunks.simps)
  next
    case False
    have "foldl hash_update acc (read_chunks bytes)
            = foldl hash_update (acc @ take 4096 bytes) (read_chunks (drop 4096 bytes))"
      using False by (subst read_chunks.simps) (simp add: hash_update_def)
    also have "\<dots> = (acc @ take 4096 bytes) @ drop 4096 bytes"
      using False by (rule "1.IH")
    finally show ?thesis by simp
  qed
qed

lemma calculate_file_hash_read:
  "read_file fs p = Inr c \<Longrightarrow> calculate_file_hash fs p = Inr (sha256_hexdigest c)"
  by (simp add: calculate_file_hash_def foldl_hash_update hexdigest_def)

lemma calculate_file_hash_InrD:
  "calculate_file_hash fs p = Inr h \<Longrightarrow> \<exists>c. read_file fs p = Inr c \<and> h = sha256_hexdigest c"
  by (auto simp: calculate_file_hash_def foldl_hash_update hexdigest_def split: sum.splits)

lemma length_sha256_round: "length (sha256_round s kw) = length s"
  by (induction s kw rule: sha256_round.induct) (simp_all add: Let_def)

lemma length_foldl_sha256_round: "length (foldl sha256_round s kws) = length s"
  by (induction kws arbitrary: s) (simp_all add: length_sha256_round)

lemma length_sha256_block: "length (sha256_block hs blk) = length hs"
  by (simp add: sha256_block_def Let_def length_foldl_sha256_round)

lemma length_foldl_sha256_block: "length (foldl sha256_block hs blks) = length hs"
  by (induction blks arbitrary: hs) (simp_all add: length_sha256_block)

lemma length_sha256: "length (sha256 m) = 8"
  by (simp add: sha256_def length_foldl_sha256_block sha256_h0_def)

lemma length_hex32: "length (hex32 w) = 8"
  by (simp add: hex32_def)

lemma hex_hex_digit: "hex (hex_digit n)"
proof -
  have "n mod 16 < length ''0123456789abcdef''" by simp
  then have "''0123456789abcdef'' ! (n mod 16) \<in> set ''0123456789abcdef''"
    by (rule nth_mem)
  then show ?thesis by (simp add: hex_def hex_digit_def)
qed

lemma hex_hex32: "list_all hex (hex32 w)"
  by (simp add: hex32_def list_all_iff hex_hex_digit)

lemma length_sha256_hexdigest: "length (sha256_hexdigest s) = 64"
proof -
  have "length (concat (map hex32 ws)) = 8 * length ws" for ws
    by (induction ws) (simp_all add: length_hex32)
  then show ?thesis by (simp add: sha256_hexdigest_def length_sha256)
qed

lemma hex_sha256_hexdigest: "list_all hex (sha256_hexdigest s)"
  using hex_hex32 by (auto simp: sha256_hexdigest_def list_all_iff)

lemma digit_digit_char: "digit (digit_char n)"
proof -
  have "n mod 10 < length ''0123456789''" by simp
  then have "''0123456789'' ! (n mod 10) \<in> set ''0123456789''"
    by (rule nth_mem)
  then show ?thesis by (simp add: digit_def digit_char_def)
qed

lemma digit_dec: "list_all digit (dec n)"
proof (induction n rule: dec.induct)
  case (1 n)
  then show ?case
    by (subst dec.simps) (simp add: digit_digit_char)
qed

lemma length_dec: "n < 10 ^ k \<Longrightarrow> 0 < k \<Longrightarrow> length (dec n) \<le> k"
proof (induction n arbitrary: k rule: dec.induct)
  case (1 n)
  show ?case
  proof (cases "n < 10")
    case True
    then show ?thesis using "1.prems" by (subst dec.simps) simp
  next
    case False
    then obtain j where k: "k = Suc j" and j: "0 < j"
      using "1.prems" by (cases k; cases "k - 1") auto
    have "n div 10 < 10 ^ j" using "1.prems"(1) k by (simp add: less_mult_imp_div_less mult.commute)
    then have "length (dec (n div 10)) \<le> j" using "1.IH" False j by simp
    then show ?thesis using False k by (subst dec.simps) simp
  qed
qed

lemma length_zfill: "length s \<le> w \<Longrightarrow> length (zfill w s) = w"
  by (simp add: zfill_def)

lemma digit_zfill: "list_all digit s \<Longrightarrow> list_all digit (zfill w s)"
proof -
  have "digit (CHR ''0'')" by (simp add: digit_def)
  then show "list_all digit s \<Longrightarrow> list_all digit (zfill w s)"
    by (auto simp: zfill_def list_all_iff)
qed

lemma length_zfill_dec: "n < 10 ^ k \<Longrightarrow> 0 < k \<Longrightarrow> length (zfill k (dec n)) = k"
  by (simp add: length_zfill length_dec)

lemma digit_zfill_dec: "list_all digit (zfill k (dec n))"
  by (simp add: digit_zfill digit_dec)

lemma strftime_format:
  assumes "valid_datetime t"
  shows "length (strftime t) = 15"
    and "list_all digit (take 8 (strftime t))"
    and "take 1 (drop 8 (strftime t)) = ''_''"
    and "list_all digit (drop 9 (strftime t))"
proof -
  have y: "length (zfill 4 (dec (year t))) = 4"
    using assms by (intro length_zfill_dec) (simp_all add: valid_datetime_def)
  have m: "length (zfill 2 (dec (month t))) = 2"
    using assms by (intro length_zfill_dec) (simp_all add: valid_datetime_def)
  have d: "length (zfill 2 (dec (day t))) = 2"
    using assms by (intro length_zfill_dec) (simp_all add: valid_datetime_def)
  have h: "length (zfill 2 (dec (hour t))) = 2"
    using assms by (intro length_zfill_dec) (simp_all add: valid_datetime_def)
  have mi: "length (zfill 2 (dec (minute t))) = 2"
    using assms by (intro length_zfill_dec) (simp_all add: valid_datetime_def)
  have s: "length (zfill 2 (dec (second t))) = 2"
    using assms by (intro length_zfill_dec) (simp_all add: valid_datetime_def)
  show "length (strftime t) = 15"
    by (simp add: strftime_def y m d h mi s)
  show "list_all digit (take 8 (strftime t))"
    by (simp add: strftime_def y m d digit_zfill_dec)
  show "take 1 (drop 8 (strftime t)) = ''_''"
    by (simp add: strftime_def y m d)
  show "list_all digit (drop 9 (strftime t))"
    by (simp add: strftime_def y m d h mi s digit_zfill_dec)
qed

subsection \<open>The file-system operations\<close>

lemma lookup_append:
  "lookup r (p @ q) = (case lookup r p of None \<Rightarrow> None | Some n \<Rightarrow> lookup n q)"
  by (induction r p rule: lookup.induct) (auto split: option.splits)

lemma lookup_File_Some: "lookup (File c) q = Some n \<Longrightarrow> q = [] \<and> n = File c"
  by (cases q) auto


lemma lookup_prefix_Dir:
  "lookup r (p @ x # s) = Some n \<Longrightarrow> \<exists>es. lookup r p = Some (Dir es)"
proof -
  assume a: "lookup r (p @ x # s) = Some n"
  then obtain m where m: "lookup r p = Some m" "lookup m (x # s) = Some n"
    by (auto simp: lookup_append split: option.splits)
  then show ?thesis by (cases m) auto
qed

lemma lookup_butlast_Dir:
  assumes "lookup r q = Some n" and "q \<noteq> []"
  shows "\<exists>es. lookup r (butlast q) = Some (Dir es)"
proof -
  have "q = butlast q @ last q # []" using assms(2) by simp
  then show ?thesis using assms(1) lookup_prefix_Dir [of r "butlast q" "last q" "[]" n] by simp
qed

lemma put_at_frame:
  "\<not> prefix q p \<Longrightarrow> \<not> prefix p q \<Longrightarrow> lookup (put_at r p new) q = lookup r q"
proof (induction r p new arbitrary: q rule: put_at.induct)
  case (1 n new)
  then show ?case by simp
next
  case (2 c x xs new)
  then show ?case by simp
next
  case (3 es x xs new)
  from "3.prems"(1) obtain y ys where q: "q = y # ys" by (cases q) auto
  show ?case
  proof (cases "y = x")
    case False
    then show ?thesis using q by (auto simp: update_conv' split: option.splits)
  next
    case True
    then have p: "\<not> prefix ys xs" "\<not> prefix xs ys" using "3.prems" q by auto
    then have xs: "xs \<noteq> []" by auto
    show ?thesis
    proof (cases "map_of es x")
      case None
      then show ?thesis using xs by simp
    next
      case (Some n)
      then show ?thesis using xs q True "3.IH" [OF xs Some p] by (simp add: update_conv')
    qed
  qed
qed

lemma put_at_below:
  "lookup r p = Some (Dir es) \<Longrightarrow> lookup (put_at r (p @ [x]) new) (p @ x # s) = lookup new s"
proof (induction p arbitrary: r)
  case Nil
  then show ?case by (simp add: update_conv')
next
  case (Cons y ys)
  then obtain es0 n where r: "r = Dir es0" and n: "map_of es0 y = Some n"
    and l: "lookup n ys = Some (Dir es)"
    by (cases r) (auto split: option.splits)
  show ?case using Cons.IH [OF l] r n by (simp add: update_conv')
qed

lemma put_at_target:
  "lookup r p = Some (Dir es) \<Longrightarrow> lookup (put_at r (p @ [x]) new) (p @ [x]) = Some new"
  using put_at_below [of r p es x new "[]"] by simp

lemma put_at_parent:
  "lookup r p = Some (Dir es) \<Longrightarrow>
   lookup (put_at r (p @ [x]) new) p = Some (Dir (AList.update x new es))"
proof (induction p arbitrary: r)
  case Nil
  then show ?case by simp
next
  case (Cons y ys)
  then obtain es0 n where r: "r = Dir es0" and n: "map_of es0 y = Some n"
    and l: "lookup n ys = Some (Dir es)"
    by (cases r) (auto split: option.splits)
  show ?case using Cons.IH [OF l] r n by (simp add: update_conv')
qed

lemma put_at_dirs:
  "lookup r q = Some (Dir es) \<Longrightarrow> \<not> prefix p q \<Longrightarrow>
   \<exists>es'. lookup (put_at r p new) q = Some (Dir es')"
proof (induction r p new arbitrary: q es rule: put_at.induct)
  case (1 n new)
  then show ?case by simp
next
  case (2 c x xs new)
  then show ?case by simp
next
  case (3 es0 x xs new)
  show ?case
  proof (cases q)
    case Nil
    then show ?thesis by (auto split: option.splits)
  next
    case (Cons y ys)
    show ?thesis
    proof (cases "y = x")
      case False
      then show ?thesis using Cons "3.prems"(1) by (auto simp: update_conv' split: option.splits)
    next
      case True
      then have p: "\<not> prefix xs ys" using "3.prems"(2) Cons by simp
      then have xs: "xs \<noteq> []" by auto
      from "3.prems"(1) Cons True obtain n where n: "map_of es0 x = Some n"
        and l: "lookup n ys = Some (Dir es)"
        by (auto split: option.splits)
      from "3.IH" [OF xs n l p] show ?thesis using xs n Cons True by (simp add: update_conv')
    qed
  qed
qed

lemma put_at_files:
  "lookup r q = Some (File c) \<Longrightarrow> \<not> prefix p q \<Longrightarrow>
   lookup (put_at r p new) q = Some (File c)"
proof (induction r p new arbitrary: q rule: put_at.induct)
  case (1 n new)
  then show ?case by simp
next
  case (2 c x xs new)
  then show ?case by simp
next
  case (3 es0 x xs new)
  from "3.prems"(1) obtain y ys where q: "q = y # ys" by (cases q) auto
  show ?case
  proof (cases "y = x")
    case False
    then show ?thesis using q "3.prems"(1) by (auto simp: update_conv' split: option.splits)
  next
    case True
    then have p: "\<not> prefix xs ys" using "3.prems"(2) q by simp
    then have xs: "xs \<noteq> []" by auto
    from "3.prems"(1) q True obtain n where n: "map_of es0 x = Some n"
      and l: "lookup n ys = Some (File c)"
      by (auto split: option.splits)
    from "3.IH" [OF xs n l p] show ?thesis using xs n q True by (simp add: update_conv')
  qed
qed

lemma remove_at_frame:
  "\<not> prefix q p \<Longrightarrow> \<not> prefix p q \<Longrightarrow> lookup (remove_at r p) q = lookup r q"
proof (induction r p arbitrary: q rule: remove_at.induct)
  case (1 n)
  then show ?case by simp
next
  case (2 c x xs)
  then show ?case by simp
next
  case (3 es x xs)
  from "3.prems"(1) obtain y ys where q: "q = y # ys" by (cases q) auto
  show ?case
  proof (cases "y = x")
    case False
    then show ?thesis using q by (auto simp: update_conv' delete_conv' split: option.splits)
  next
    case True
    then have p: "\<not> prefix ys xs" "\<not> prefix xs ys" using "3.prems" q by auto
    then have xs: "xs \<noteq> []" by auto
    show ?thesis
    proof (cases "map_of es x")
      case None
      then show ?thesis using xs by simp
    next
      case (Some n)
      then show ?thesis using xs q True "3.IH" [OF xs Some p] by (simp add: update_conv')
    qed
  qed
qed

lemma remove_at_gone:
  "lookup r p = Some (Dir es) \<Longrightarrow> lookup (remove_at r (p @ [x])) (p @ x # s) = None"
proof (induction p arbitrary: r)
  case Nil
  then show ?case by (simp add: delete_conv')
next
  case (Cons y ys)
  then obtain es0 n where r: "r = Dir es0" and n: "map_of es0 y = Some n"
    and l: "lookup n ys = Some (Dir es)"
    by (cases r) (auto split: option.splits)
  show ?case using Cons.IH [OF l] r n by (simp add: update_conv')
qed

lemma remove_at_parent:
  "lookup r p = Some (Dir es) \<Longrightarrow>
   lookup (remove_at r (p @ [x])) p = Some (Dir (AList.delete x es))"
proof (induction p arbitrary: r)
  case Nil
  then show ?case by simp
next
  case (Cons y ys)
  then obtain es0 n where r: "r = Dir es0" and n: "map_of es0 y = Some n"
    and l: "lookup n ys = Some (Dir es)"
    by (cases r) (auto split: option.splits)
  show ?case using Cons.IH [OF l] r n by (simp add: update_conv')
qed

lemma walk_append:
  "walk r cur (xs @ ys) = (case walk r cur xs of Inl e \<Rightarrow> Inl e | Inr q \<Rightarrow> walk r q ys)"
  by (induction xs arbitrary: cur) (auto split: option.splits node.splits)

lemma walk_mono:
  assumes "\<And>t es. lookup r t = Some (Dir es) \<Longrightarrow> \<exists>es'. lookup r' t = Some (Dir es')"
    and "walk r cur cs = Inr q"
  shows "walk r' cur cs = Inr q"
  using assms(2)
proof (induction cs arbitrary: cur)
  case Nil
  then show ?case by simp
next
  case (Cons c cs)
  then obtain es where es: "lookup r cur = Some (Dir es)"
    and w: "walk r (step cur c) cs = Inr q"
    by (auto split: option.splits node.splits)
  from assms(1) [OF es] obtain es' where "lookup r' cur = Some (Dir es')" by blast
  then show ?case using Cons.IH [OF w] by simp
qed

lemma walk_Inr_cases:
  assumes "walk r cur cs = Inr q" and "cs \<noteq> []"
  shows "(\<exists>es. lookup r q = Some (Dir es)) \<or>
         (\<exists>p x es. q = p @ [x] \<and> lookup r p = Some (Dir es) \<and> x = last cs \<and> x \<noteq> [] \<and>
                    x \<noteq> ''.'' \<and> x \<noteq> ''..'')"
  using assms
proof (induction cs arbitrary: cur)
  case Nil
  then show ?case by simp
next
  case (Cons c cs)
  then obtain es where es: "lookup r cur = Some (Dir es)"
    and w: "walk r (step cur c) cs = Inr q"
    by (auto split: option.splits node.splits)
  show ?case
  proof (cases "cs = []")
    case False
    then show ?thesis using Cons.IH [OF w] by simp
  next
    case True
    then have q: "q = step cur c" using w by simp
    show ?thesis
    proof (cases "c = [] \<or> c = ''.''")
      case True
      then show ?thesis using q es by (auto simp: step_def)
    next
      case False
      show ?thesis
      proof (cases "c = ''..''")
        case True
        then have qq: "q = butlast cur" using q by (simp add: step_def)
        show ?thesis
        proof (cases "cur = []")
          case True
          then show ?thesis using qq es by simp
        next
          case False
          then show ?thesis using qq lookup_butlast_Dir [OF es] by simp
        qed
      next
        case False
        then have "q = cur @ [c]" using q \<open>\<not> (c = [] \<or> c = ''.'')\<close> by (simp add: step_def)
        then show ?thesis using es False \<open>\<not> (c = [] \<or> c = ''.'')\<close> \<open>cs = []\<close> by auto
      qed
    qed
  qed
qed

lemma split_slash_ne: "split_slash s \<noteq> []"
  by (induction s) (auto split: list.splits)

lemma split_slash_append:
  "split_slash (a @ CHR ''/'' # b) = split_slash a @ split_slash b"
  by (induction a) (auto split: list.splits simp: split_slash_ne)

lemma split_slash_noslash: "CHR ''/'' \<notin> set b \<Longrightarrow> split_slash b = [b]"
  by (induction b) auto

lemma split_slash_snoc:
  "a \<noteq> [] \<Longrightarrow> last a = CHR ''/'' \<Longrightarrow> split_slash a = split_slash (butlast a) @ [[]]"
proof -
  assume "a \<noteq> []" "last a = CHR ''/''"
  then have "a = butlast a @ CHR ''/'' # []" by (metis append_butlast_last_id)
  then have "split_slash a = split_slash (butlast a) @ split_slash []"
    using split_slash_append [of "butlast a" "[]"] by simp
  then show ?thesis by simp
qed

lemma resolve_join2:
  assumes b: "b \<noteq> []" "CHR ''/'' \<notin> set b" and a: "a \<noteq> []"
  shows "resolve fs (join2 a b) =
           (case resolve fs a of Inl e \<Rightarrow> Inl e | Inr q \<Rightarrow> walk (root fs) q [b])"
proof -
  have nb: "take 1 b \<noteq> ''/''" using b by (cases b) auto
  have st: "start fs (a @ s) = start fs a" for s using a by (cases a) (auto simp: start_def)
  show ?thesis
  proof (cases "last a = CHR ''/''")
    case True
    have j: "join2 a b = butlast a @ CHR ''/'' # b"
      using True a nb by (simp add: join2_def) (metis append_butlast_last_id append_Cons append_Nil append_assoc)
    have sa: "split_slash a = split_slash (butlast a) @ [[]]"
      using split_slash_snoc [OF a True] .
    have sj: "split_slash (join2 a b) = split_slash (butlast a) @ [b]"
      unfolding j by (simp add: split_slash_append split_slash_noslash b)
    have stj: "start fs (join2 a b) = start fs a"
      using st [of b] True a nb by (simp add: join2_def)
    have ne: "join2 a b \<noteq> []" using a b by (auto simp: join2_def)
    show ?thesis
    proof (cases "walk (root fs) (start fs a) (split_slash (butlast a))")
      case (Inl e)
      then show ?thesis
        unfolding resolve_def using a ne by (simp add: sj sa stj walk_append)
    next
      case (Inr q)
      then show ?thesis
        unfolding resolve_def using a ne
        by (cases "lookup (root fs) q"; cases "the (lookup (root fs) q)")
           (simp_all add: sj sa stj walk_append step_def)
    qed
  next
    case False
    have j: "join2 a b = a @ CHR ''/'' # b"
      using False a nb by (simp add: join2_def)
    have sj: "split_slash (join2 a b) = split_slash a @ [b]"
      unfolding j by (simp add: split_slash_append split_slash_noslash b)
    have stj: "start fs (join2 a b) = start fs a"
      unfolding j using st [of "CHR ''/'' # b"] by simp
    have ne: "join2 a b \<noteq> []" using a j by simp
    show ?thesis
      unfolding resolve_def using a ne
      by (simp add: sj stj walk_append split: sum.splits)
  qed
qed


lemma lookup_prefix_exists: "lookup r t = Some n \<Longrightarrow> prefix p t \<Longrightarrow> lookup r p \<noteq> None"
  by (auto simp: prefix_def lookup_append split: option.splits)

lemma lookup_below_not_Dir:
  assumes "\<And>es. lookup r q \<noteq> Some (Dir es)" and "prefix q t" and "t \<noteq> q"
  shows "lookup r t = None"
proof (rule ccontr)
  assume "lookup r t \<noteq> None"
  then obtain n where n: "lookup r t = Some n" by auto
  from assms(2,3) obtain x s where "t = q @ x # s"
    by (auto simp: prefix_def) (metis list.exhaust append_Nil2)
  with n lookup_prefix_Dir [of r q x s n] assms(1) show False by auto
qed

lemma resolve_mono:
  assumes "\<And>t es. lookup (root fs) t = Some (Dir es) \<Longrightarrow> \<exists>es'. lookup (root fs') t = Some (Dir es')"
    and "cwd fs' = cwd fs"
    and "resolve fs p = Inr q"
  shows "resolve fs' p = Inr q"
proof -
  have ne: "p \<noteq> []" using assms(3) by (auto simp: resolve_def)
  then have "walk (root fs) (start fs p) (split_slash p) = Inr q"
    using assms(3) by (simp add: resolve_def)
  then have "walk (root fs') (start fs p) (split_slash p) = Inr q"
    using assms(1) by (rule walk_mono [rotated])
  moreover have "start fs' p = start fs p" using assms(2) by (simp add: start_def)
  ultimately show ?thesis using ne by (simp add: resolve_def)
qed

lemma split_slash_noslash_elems: "c \<in> set (split_slash s) \<Longrightarrow> CHR ''/'' \<notin> set c"
  by (induction s arbitrary: c) (auto split: list.splits if_splits)

lemma resolve_parent:
  assumes "resolve fs p = Inr q" and "\<And>es. lookup (root fs) q \<noteq> Some (Dir es)"
  shows "\<exists>pp es. q = pp @ [last (split_slash p)] \<and> lookup (root fs) pp = Some (Dir es) \<and>
                  is_name (last (split_slash p))"
proof -
  have ne: "p \<noteq> []" using assms(1) by (auto simp: resolve_def)
  then have w: "walk (root fs) (start fs p) (split_slash p) = Inr q"
    using assms(1) by (simp add: resolve_def)
  have "last (split_slash p) \<in> set (split_slash p)"
    using split_slash_ne by simp
  then have "CHR ''/'' \<notin> set (last (split_slash p))" by (rule split_slash_noslash_elems)
  then show ?thesis
    using walk_Inr_cases [OF w split_slash_ne] assms(2) by (auto simp: is_name_def)
qed

lemma write_file_InrD:
  assumes "write_file fs p c = Inr fs'"
  shows "\<exists>q pp es. resolve fs p = Inr q \<and> q = pp @ [last (split_slash p)] \<and>
           is_name (last (split_slash p)) \<and> lookup (root fs) pp = Some (Dir es) \<and>
           (\<forall>es. lookup (root fs) q \<noteq> Some (Dir es)) \<and>
           fs' = fs\<lparr>root := put_at (root fs) q (File c)\<rparr>"
proof -
  from assms obtain q where q: "resolve fs p = Inr q"
    by (auto simp: write_file_def split: sum.splits)
  have nd: "lookup (root fs) q \<noteq> Some (Dir es)" for es
    using assms q by (auto simp: write_file_def split: option.splits node.splits)
  have fs': "fs' = fs\<lparr>root := put_at (root fs) q (File c)\<rparr>"
    using assms q by (auto simp: write_file_def split: option.splits node.splits)
  from resolve_parent [OF q nd] q nd fs' show ?thesis by blast
qed

lemma write_file_cwd: "write_file fs p c = Inr fs' \<Longrightarrow> cwd fs' = cwd fs"
  by (auto dest!: write_file_InrD)

lemma write_file_dirs:
  assumes "write_file fs p c = Inr fs'" and "lookup (root fs) t = Some (Dir es)"
  shows "\<exists>es'. lookup (root fs') t = Some (Dir es')"
proof -
  from write_file_InrD [OF assms(1)] obtain q
    where nd: "\<And>es. lookup (root fs) q \<noteq> Some (Dir es)"
    and fs': "fs' = fs\<lparr>root := put_at (root fs) q (File c)\<rparr>"
    by blast
  have "\<not> prefix q t"
  proof
    assume "prefix q t"
    moreover have "t \<noteq> q" using nd assms(2) by auto
    ultimately have "lookup (root fs) t = None" using lookup_below_not_Dir nd by blast
    then show False using assms(2) by simp
  qed
  then show ?thesis using put_at_dirs [OF assms(2)] fs' by simp
qed

lemma write_file_target:
  assumes "write_file fs p c = Inr fs'" and "resolve fs p = Inr q"
  shows "lookup (root fs') q = Some (File c)"
proof -
  from write_file_InrD [OF assms(1)] assms(2) obtain pp es
    where "q = pp @ [last (split_slash p)]"
    "lookup (root fs) pp = Some (Dir es)" "fs' = fs\<lparr>root := put_at (root fs) q (File c)\<rparr>"
    by auto
  then show ?thesis using put_at_target [of "root fs" pp es] by simp
qed

lemma write_file_frame:
  assumes "write_file fs p c = Inr fs'" and "resolve fs p = Inr q" and "\<not> prefix t q"
  shows "lookup (root fs') t = lookup (root fs) t"
proof -
  from write_file_InrD [OF assms(1)] assms(2) obtain pp es
    where q: "q = pp @ [last (split_slash p)]"
    and pp: "lookup (root fs) pp = Some (Dir es)"
    and nd: "\<And>es. lookup (root fs) q \<noteq> Some (Dir es)"
    and fs': "fs' = fs\<lparr>root := put_at (root fs) q (File c)\<rparr>"
    by auto
  show ?thesis
  proof (cases "prefix q t")
    case False
    then show ?thesis using assms(3) fs' by (simp add: put_at_frame)
  next
    case True
    then obtain s where t: "t = q @ s" by (auto simp: prefix_def)
    then have s: "s \<noteq> []" using assms(3) by auto
    then obtain y ys where ys: "s = y # ys" by (cases s) auto
    have "t \<noteq> q" using t s by simp
    then have "lookup (root fs) t = None"
      using lookup_below_not_Dir [of "root fs" q t] nd True by auto
    moreover have "lookup (root fs') t = None"
      using put_at_below [OF pp, of "last (split_slash p)" "File c" s] fs' t q ys by simp
    ultimately show ?thesis by simp
  qed
qed

lemma File_not_prefix:
  assumes "lookup r t = Some (File d)" and "lookup r q = Some n" and "prefix t q"
  shows "q = t"
proof (rule ccontr)
  assume "q \<noteq> t"
  with assms(3) obtain y ys where "q = t @ y # ys"
    by (auto simp: prefix_def) (metis list.exhaust append_Nil2)
  with assms(2) lookup_prefix_Dir [of r t y ys n] assms(1) show False by auto
qed

lemma write_file_files:
  assumes "write_file fs p c = Inr fs'" and "resolve fs p = Inr q"
    and "lookup (root fs) t = Some (File d)" and "t \<noteq> q"
  shows "lookup (root fs') t = Some (File d)"
proof -
  from write_file_InrD [OF assms(1)] assms(2) obtain pp es
    where q: "q = pp @ [last (split_slash p)]"
    and pp: "lookup (root fs) pp = Some (Dir es)"
    by auto
  have "\<not> prefix t q"
  proof
    assume "prefix t q"
    then have "prefix t pp" using q assms(4) by (simp add: prefix_snoc)
    then have "pp = t" using File_not_prefix [OF assms(3) pp] by simp
    then show False using pp assms(3) by simp
  qed
  then show ?thesis using write_file_frame [OF assms(1,2)] assms(3) by simp
qed

lemma write_file_read:
  assumes "write_file fs p c = Inr fs'"
  shows "read_file fs' p = Inr c"
proof -
  from write_file_InrD [OF assms] obtain q where q: "resolve fs p = Inr q" by blast
  have "resolve fs' p = Inr q"
    using write_file_dirs [OF assms] write_file_cwd [OF assms] q by (rule resolve_mono)
  then show ?thesis using write_file_target [OF assms q] by (simp add: read_file_def stat_def)
qed

lemma read_file_InrD:
  assumes "read_file fs p = Inr c"
  shows "\<exists>q. resolve fs p = Inr q \<and> lookup (root fs) q = Some (File c)"
  using assms
  by (auto simp: read_file_def stat_def split: sum.splits option.splits node.splits)

lemma read_file_File:
  "resolve fs p = Inr q \<Longrightarrow> lookup (root fs) q = Some (File c) \<Longrightarrow> read_file fs p = Inr c"
  by (simp add: read_file_def stat_def)

lemma write_file_keeps_read:
  assumes "write_file fs p c = Inr fs'" and "read_file fs s = Inr d" and "\<not> samefile fs s p"
  shows "read_file fs' s = Inr d"
proof -
  from write_file_InrD [OF assms(1)] obtain q where q: "resolve fs p = Inr q" by blast
  from read_file_InrD [OF assms(2)] obtain qs
    where qs: "resolve fs s = Inr qs" "lookup (root fs) qs = Some (File d)"
    by blast
  have "qs \<noteq> q" using assms(3) q qs by (auto simp: samefile_def stat_def)
  then have "lookup (root fs') qs = Some (File d)"
    using write_file_files [OF assms(1) q qs(2)] by simp
  moreover have "resolve fs' s = Inr qs"
    using write_file_dirs [OF assms(1)] write_file_cwd [OF assms(1)] qs(1) by (rule resolve_mono)
  ultimately show ?thesis by (rule read_file_File [rotated])
qed


lemma makedirs_walk_dirs:
  "makedirs_walk r cur cs = (res, r') \<Longrightarrow> lookup r t = Some (Dir es) \<Longrightarrow>
   \<exists>es'. lookup r' t = Some (Dir es')"
proof (induction cs arbitrary: r cur es)
  case Nil
  then show ?case by (auto split: option.splits node.splits)
next
  case (Cons c cs)
  show ?case
  proof (cases "c = []")
    case True
    then show ?thesis using Cons by simp
  next
    case False
    show ?thesis
    proof (cases "lookup r cur")
      case None
      then show ?thesis using Cons.prems False by simp
    next
      case (Some n)
      show ?thesis
      proof (cases n)
        case (File x)
        then show ?thesis using Cons.prems False Some by simp
      next
        case (Dir es0)
        show ?thesis
        proof (cases "lookup r (step cur c) = None")
          case True
          then have m: "makedirs_walk (put_at r (step cur c) (Dir [])) (step cur c) cs = (res, r')"
            using Cons.prems(1) False Some Dir by simp
          have "\<not> prefix (step cur c) t"
            using lookup_prefix_exists [OF Cons.prems(2)] True by blast
          then obtain es1 where "lookup (put_at r (step cur c) (Dir [])) t = Some (Dir es1)"
            using put_at_dirs [OF Cons.prems(2)] by blast
          then show ?thesis using Cons.IH [OF m] by blast
        next
          case False
          then have m: "makedirs_walk r (step cur c) cs = (res, r')"
            using Cons.prems(1) \<open>c \<noteq> []\<close> Some Dir by (auto split: if_splits)
          then show ?thesis using Cons.IH [OF m Cons.prems(2)] by blast
        qed
      qed
    qed
  qed
qed

lemma makedirs_walk_files:
  "makedirs_walk r cur cs = (res, r') \<Longrightarrow> lookup r t = Some (File d) \<Longrightarrow>
   lookup r' t = Some (File d)"
proof (induction cs arbitrary: r cur)
  case Nil
  then show ?case by (auto split: option.splits node.splits)
next
  case (Cons c cs)
  show ?case
  proof (cases "c = []")
    case True
    then show ?thesis using Cons by simp
  next
    case False
    show ?thesis
    proof (cases "lookup r cur")
      case None
      then show ?thesis using Cons.prems False by simp
    next
      case (Some n)
      show ?thesis
      proof (cases n)
        case (File x)
        then show ?thesis using Cons.prems False Some by simp
      next
        case (Dir es0)
        show ?thesis
        proof (cases "lookup r (step cur c) = None")
          case True
          then have m: "makedirs_walk (put_at r (step cur c) (Dir [])) (step cur c) cs = (res, r')"
            using Cons.prems(1) False Some Dir by simp
          have "\<not> prefix (step cur c) t"
            using lookup_prefix_exists [OF Cons.prems(2)] True by blast
          then have "lookup (put_at r (step cur c) (Dir [])) t = Some (File d)"
            using put_at_files [OF Cons.prems(2)] by blast
          then show ?thesis using Cons.IH [OF m] by blast
        next
          case False
          then have m: "makedirs_walk r (step cur c) cs = (res, r')"
            using Cons.prems(1) \<open>c \<noteq> []\<close> Some Dir by (auto split: if_splits)
          then show ?thesis using Cons.IH [OF m Cons.prems(2)] by blast
        qed
      qed
    qed
  qed
qed

lemma makedirs_cwd: "cwd (snd (makedirs fs p)) = cwd fs"
  by (simp add: makedirs_def split: prod.splits)

lemma makedirs_dirs:
  "lookup (root fs) t = Some (Dir es) \<Longrightarrow> \<exists>es'. lookup (root (snd (makedirs fs p))) t = Some (Dir es')"
  using makedirs_walk_dirs [of "root fs" "start fs p" "split_slash p" _ _ t es]
  by (auto simp: makedirs_def split: prod.splits)

lemma makedirs_files:
  "lookup (root fs) t = Some (File d) \<Longrightarrow> lookup (root (snd (makedirs fs p))) t = Some (File d)"
  using makedirs_walk_files [of "root fs" "start fs p" "split_slash p" _ _ t d]
  by (auto simp: makedirs_def split: prod.splits)

lemma makedirs_resolve:
  "resolve fs s = Inr q \<Longrightarrow> resolve (snd (makedirs fs p)) s = Inr q"
  using makedirs_dirs makedirs_cwd by (rule resolve_mono)

lemma makedirs_keeps_read:
  assumes "read_file fs s = Inr d"
  shows "read_file (snd (makedirs fs p)) s = Inr d"
proof -
  from read_file_InrD [OF assms] obtain q
    where q: "resolve fs s = Inr q" "lookup (root fs) q = Some (File d)"
    by blast
  show ?thesis
    using makedirs_resolve [OF q(1)] makedirs_files [OF q(2)] by (rule read_file_File)
qed










lemma getsize_read: "read_file fs p = Inr c \<Longrightarrow> getsize fs p = Inr (int (length c))"
  by (auto simp: read_file_def getsize_def split: sum.splits node.splits)

lemma read_file_exists: "read_file fs p = Inr c \<Longrightarrow> path_exists fs p"
  by (auto simp: read_file_def path_exists_def split: sum.splits)

lemma copy2_InrD:
  assumes "copy2 fs src dst = Inr fs'"
  shows "\<exists>c. \<not> samefile fs src (if path_isdir fs dst then os_path_join dst [basename src] else dst) \<and>
           read_file fs src = Inr c \<and>
           write_file fs (if path_isdir fs dst then os_path_join dst [basename src] else dst) c
             = Inr fs'"
  using assms by (auto simp: copy2_def Let_def split: if_splits sum.splits)

lemma copy2_keeps_source:
  assumes "copy2 fs src dst = Inr fs'" and "read_file fs src = Inr c"
  shows "read_file fs' src = Inr c"
proof -
  from copy2_InrD [OF assms(1)] obtain c' where
    ns: "\<not> samefile fs src (if path_isdir fs dst then os_path_join dst [basename src] else dst)"
    and w: "write_file fs (if path_isdir fs dst then os_path_join dst [basename src] else dst) c'
              = Inr fs'"
    by blast
  show ?thesis using w assms(2) ns by (rule write_file_keeps_read)
qed

lemma create_version_InrD:
  assumes "create_version dumps fs now_id now_meta model_name model_file metadata = (Inr version, fs')"
  shows "\<exists>content fs1 fs2.
    read_file fs model_file = Inr content \<and>
    version = ''v'' @ strftime now_id @ ''_'' @ take 8 (sha256_hexdigest content) \<and>
    makedirs fs (os_path_join versions_dir [model_name, version]) = (Inr (), fs1) \<and>
    copy2 fs1 model_file (os_path_join versions_dir [model_name, version]) = Inr fs2 \<and>
    read_file fs2 model_file = Inr content \<and>
    write_file fs2 (os_path_join (os_path_join versions_dir [model_name, version]) [''metadata.json''])
       (dumps (version_metadata version model_name now_meta metadata
                 (sha256_hexdigest content) (int (length content)))) = Inr fs'"
proof -
  from assms have ex: "path_exists fs model_file"
    by (auto simp: create_version_def split: if_splits)
  from assms obtain v where v: "generate_version_id fs now_id model_file = Inr v"
    by (cases "generate_version_id fs now_id model_file")
       (auto simp: create_version_def split: if_splits)
  then obtain content where c: "read_file fs model_file = Inr content"
    and v_eq: "v = ''v'' @ strftime now_id @ ''_'' @ take 8 (sha256_hexdigest content)"
    by (auto simp: generate_version_id_def Let_def split: sum.splits
        dest!: calculate_file_hash_InrD)
  let ?vd = "os_path_join versions_dir [model_name, v]"
  obtain res fs1 where m0: "makedirs fs ?vd = (res, fs1)" by (cases "makedirs fs ?vd")
  have r1: "create_version dumps fs now_id now_meta model_name model_file metadata =
      (case res of
         Inl e \<Rightarrow> (Inl e, fs1)
       | Inr u \<Rightarrow>
           (case copy2 fs1 model_file ?vd of
              Inl e \<Rightarrow> (Inl e, fs1)
            | Inr fs2 \<Rightarrow>
                (case calculate_file_hash fs2 model_file of
                   Inl e \<Rightarrow> (Inl e, fs2)
                 | Inr file_hash \<Rightarrow>
                     (case getsize fs2 model_file of
                        Inl e \<Rightarrow> (Inl e, fs2)
                      | Inr file_size \<Rightarrow>
                          (case write_file fs2 (os_path_join ?vd [''metadata.json''])
                                  (dumps (version_metadata v model_name
                                            now_meta metadata file_hash file_size)) of
                             Inl e \<Rightarrow> (Inl e, fs2)
                           | Inr fs3 \<Rightarrow> (Inr v, fs3))))))"
    using ex v m0 by (simp add: create_version_def split: sum.splits)
  from assms r1 have res: "res = Inr ()" by (cases res) auto
  then have m: "makedirs fs ?vd = (Inr (), fs1)" using m0 by simp
  from assms r1 res obtain fs2 where cp: "copy2 fs1 model_file ?vd = Inr fs2"
    by (cases "copy2 fs1 model_file ?vd") auto
  have c1: "read_file fs1 model_file = Inr content"
    using makedirs_keeps_read [OF c, of ?vd] m by simp
  have c2: "read_file fs2 model_file = Inr content"
    using cp c1 by (rule copy2_keeps_source)
  have h: "calculate_file_hash fs2 model_file = Inr (sha256_hexdigest content)"
    using c2 by (rule calculate_file_hash_read)
  have g: "getsize fs2 model_file = Inr (int (length content))"
    using c2 by (rule getsize_read)
  from assms r1 res cp h g have "version = v" and
    "write_file fs2 (os_path_join ?vd [''metadata.json''])
       (dumps (version_metadata v model_name now_meta metadata
                 (sha256_hexdigest content) (int (length content)))) = Inr fs'"
    by (auto split: sum.splits)
  with c v_eq m cp c2 show ?thesis by blast
qed

subsection \<open>Examples\<close>

lemma sha256_hexdigest_X:
  "sha256_hexdigest ''X'' = ''4b68ab3847feda7d6c62c1fbcbeebfa35eab7351ed5e78f4ddadea5df64b8015''"
  by code_simp

lemma strftime_demo_time: "strftime demo_time = ''20250603_191259''"
  unfolding demo_time_def by code_simp


lemma valid_demo_time: "valid_datetime demo_time"
  by (simp add: valid_datetime_def demo_time_def)

lemma read_chunks_X: "read_chunks ''X'' = [''X'']"
  by (simp add: read_chunks.simps)

lemmas fs_eval =
  read_file_def getsize_def listdir_def path_exists_def path_isdir_def path_isfile_def
  samefile_def stat_def resolve_def start_def step_def in_workdir_def write_file_def
  makedirs_def copy2_def os_path_join_def join2_def basename_def versions_dir_def

lemma read_demo_model: "read_file demo_fs ''models/demo_model.pkl'' = Inr ''X''"
  by (simp add: fs_eval demo_fs_def)

lemma generate_version_id_demo:
  "read_file fs p = Inr ''X'' \<Longrightarrow> generate_version_id fs demo_time p = Inr demo_version"
  by (simp add: generate_version_id_def calculate_file_hash_read sha256_hexdigest_X
      strftime_demo_time demo_version_def)

lemma demo_dumps_demo_record:
  "demo_dumps (version_metadata demo_version ''demo'' demo_time (JObj [])
                 (sha256_hexdigest ''X'') 1) = demo_text"
  by (simp add: demo_dumps_def demo_record_def sha256_hexdigest_X)

lemma create_version_demo:
  "create_version demo_dumps demo_fs demo_time demo_time ''demo''
      ''models/demo_model.pkl'' (JObj []) = (Inr demo_version, demo_fs1)"
proof -
  have g: "generate_version_id demo_fs demo_time ''models/demo_model.pkl'' = Inr demo_version"
    using read_demo_model by (rule generate_version_id_demo)
  have h: "calculate_file_hash fs ''models/demo_model.pkl'' = Inr (sha256_hexdigest ''X'')"
    if "read_file fs ''models/demo_model.pkl'' = Inr ''X''" for fs
    using that by (rule calculate_file_hash_read)
  show ?thesis
    unfolding create_version_def g
    by (simp add: fs_eval demo_fs_def demo_fs1_def demo_version_def
        calculate_file_hash_def read_chunks_X hash_update_def hexdigest_def
        demo_dumps_demo_record [unfolded demo_version_def])
qed

subsection \<open>Version ids\<close>

text \<open>
  C6: every version id returned by \<^verbatim>\<open>create_version\<close> has the format
  \<^verbatim>\<open>v<YYYYMMDD_HHMMSS>_<hash8>\<close>: the letter v, the clock reading of the call formatted
  as eight digits, an underscore and six digits, an underscore, and the first eight
  hexadecimal characters of the SHA-256 digest of the source file.
\<close>

theorem create_version_id_format:
  assumes "create_version dumps fs now_id now_meta model_name model_file metadata
             = (Inr version, fs')"
    and "valid_datetime now_id"
  shows "version_id_format version \<and>
         (case read_file fs model_file of
            Inl e \<Rightarrow> False
          | Inr content \<Rightarrow>
              version = ''v'' @ strftime now_id @ ''_'' @ take 8 (sha256_hexdigest content))"
proof -
  from create_version_InrD [OF assms(1)] obtain content
    where c: "read_file fs model_file = Inr content"
    and v: "version = ''v'' @ strftime now_id @ ''_'' @ take 8 (sha256_hexdigest content)"
    by blast
  let ?ts = "strftime now_id" and ?h = "take 8 (sha256_hexdigest content)"
  have len: "length ?ts = 15" and d1: "list_all digit (take 8 ?ts)"
    and u: "take 1 (drop 8 ?ts) = ''_''" and d2: "list_all digit (drop 9 ?ts)"
    using strftime_format [OF assms(2)] by simp_all
  have hl: "length ?h = 8" by (simp add: length_sha256_hexdigest)
  have hh: "list_all hex ?h"
    using hex_sha256_hexdigest [of content] by (auto simp: list_all_iff dest: in_set_takeD)
  have "version_id_format version"
    unfolding version_id_format_def v using len d1 u d2 hl hh by simp
  then show ?thesis using c v by simp
qed

theorem create_version_id_format_witness:
  "create_version demo_dumps demo_fs demo_time demo_time ''demo''
      ''models/demo_model.pkl'' (JObj []) = (Inr demo_version, demo_fs1) \<and>
   valid_datetime demo_time \<and>
   version_id_format demo_version \<and>
   demo_version = ''v'' @ strftime demo_time @ ''_'' @ take 8 (sha256_hexdigest ''X'')"
  using create_version_id_format [OF create_version_demo valid_demo_time]
    create_version_demo valid_demo_time
  unfolding read_demo_model by simp

text \<open>
  C10: the content hash is computed twice, first for the version id and then, after the
  directory was made and the file copied, for the metadata record. Both readings see the
  same source content, so the last eight characters of the returned version id are the
  first eight characters of the \<^verbatim>\<open>file_hash\<close> of the record written to the version's
  metadata file.
\<close>

theorem create_version_id_suffix_is_hash_prefix:
  assumes "create_version dumps fs now_id now_meta model_name model_file metadata
             = (Inr version, fs')"
  shows "case read_file fs model_file of
           Inl e \<Rightarrow> False
         | Inr content \<Rightarrow>
             (let record = version_metadata version model_name now_meta metadata
                             (sha256_hexdigest content) (int (length content))
              in read_file fs'
                   (os_path_join (os_path_join versions_dir [model_name, version])
                      [''metadata.json''])
                   = Inr (dumps record) \<and>
                 py_getitem record ''file_hash'' = Inr (JStr (sha256_hexdigest content)) \<and>
                 drop (length version - 8) version = take 8 (sha256_hexdigest content))"
proof -
  from create_version_InrD [OF assms] obtain content fs2
    where c: "read_file fs model_file = Inr content"
    and v: "version = ''v'' @ strftime now_id @ ''_'' @ take 8 (sha256_hexdigest content)"
    and w: "write_file fs2
       (os_path_join (os_path_join versions_dir [model_name, version]) [''metadata.json''])
       (dumps (version_metadata version model_name now_meta metadata
                 (sha256_hexdigest content) (int (length content)))) = Inr fs'"
    by blast
  have "length (take 8 (sha256_hexdigest content)) = 8"
    by (simp add: length_sha256_hexdigest)
  then have "drop (length version - 8) version = take 8 (sha256_hexdigest content)"
    unfolding v by simp
  then show ?thesis
    using c write_file_read [OF w]
    by (simp add: Let_def version_metadata_def)
qed

theorem create_version_id_suffix_is_hash_prefix_witness:
  "create_version demo_dumps demo_fs demo_time demo_time ''demo''
      ''models/demo_model.pkl'' (JObj []) = (Inr demo_version, demo_fs1) \<and>
   read_file demo_fs1
     (os_path_join (os_path_join versions_dir [''demo'', demo_version]) [''metadata.json''])
     = Inr demo_text \<and>
   drop (length demo_version - 8) demo_version = take 8 (sha256_hexdigest ''X'')"
  using create_version_id_suffix_is_hash_prefix [OF create_version_demo] create_version_demo
  unfolding read_demo_model by (simp add: Let_def demo_dumps_demo_record)

text \<open>
  C8: rolling back to a version whose directory does not exist fails (the call raises
  \<^verbatim>\<open>ValueError\<close>) and changes nothing in the file system; in particular the active
  artifact of the model reads as before.
\<close>

theorem rollback_missing_version_unchanged:
  assumes "\<not> path_exists fs (os_path_join versions_dir [model_name, version_id])"
  shows "rollback_to_version fs model_name version_id = (Inl ValueError, fs) \<and>
         read_file (snd (rollback_to_version fs model_name version_id))
             (os_path_join ''models'' [model_name @ ''_model.pkl''])
           = read_file fs (os_path_join ''models'' [model_name @ ''_model.pkl''])"
  using assms by (simp add: rollback_to_version_def)

theorem rollback_missing_version_unchanged_witness:
  "\<not> path_exists demo_fs (os_path_join versions_dir [''demo'', ''nonexistent'']) \<and>
   rollback_to_version demo_fs ''demo'' ''nonexistent'' = (Inl ValueError, demo_fs) \<and>
   read_file (snd (rollback_to_version demo_fs ''demo'' ''nonexistent''))
       (os_path_join ''models'' [''demo'' @ ''_model.pkl'']) = Inr ''X''"
proof -
  have h: "\<not> path_exists demo_fs (os_path_join versions_dir [''demo'', ''nonexistent''])"
    by (simp add: fs_eval demo_fs_def)
  have r: "read_file demo_fs (os_path_join ''models'' [''demo'' @ ''_model.pkl'']) = Inr ''X''"
    by (simp add: fs_eval demo_fs_def)
  show ?thesis
    using h rollback_missing_version_unchanged [OF h] r by simp
qed

subsection \<open>Listing and sorting\<close>



lemma map_result_Inl:
  "x \<in> set xs \<Longrightarrow> isl (f x) \<Longrightarrow> isl (map_result f xs)"
  by (induction xs) (auto split: sum.splits)

lemma load_versions_Inr:
  "load_versions loads fs md names = Inr rs \<Longrightarrow>
   map Inr rs = map (\<lambda>d. json_load loads fs (os_path_join md [d, ''metadata.json'']))
                  (filter (\<lambda>d. path_exists fs (os_path_join md [d, ''metadata.json''])) names)"
  by (induction names arbitrary: rs) (auto simp: Let_def split: sum.splits if_splits)


lemma load_versions_Inl:
  "d \<in> set names \<Longrightarrow> path_exists fs (os_path_join md [d, ''metadata.json'']) \<Longrightarrow>
   isl (json_load loads fs (os_path_join md [d, ''metadata.json''])) \<Longrightarrow>
   isl (load_versions loads fs md names)"
  by (induction names) (auto simp: Let_def split: sum.splits)












lemma py_sorted_reverse_Inl:
  "x \<in> set xs \<Longrightarrow> isl (f x) \<Longrightarrow> isl (py_sorted_reverse f xs)"
  using map_result_Inl [of x xs f]
  by (auto simp: py_sorted_reverse_def split: sum.splits)

lemma listdir_exists: "listdir fs p = Inr names \<Longrightarrow> path_exists fs p"
  by (auto simp: listdir_def path_exists_def split: sum.splits)

lemma list_versions_listdir:
  "listdir fs (os_path_join versions_dir [model_name]) = Inr names \<Longrightarrow>
   list_versions loads fs model_name =
     (case load_versions loads fs (os_path_join versions_dir [model_name]) names of
        Inl e \<Rightarrow> Inl e
      | Inr versions \<Rightarrow> py_sorted_reverse (\<lambda>x. py_getitem x ''created_at'') versions)"
  using listdir_exists [of fs "os_path_join versions_dir [model_name]" names]
  by (simp add: list_versions_def)

lemma demo_text_neq: "demo_text \<noteq> later_text"
  by (simp add: demo_text_def later_text_def)

lemma demo_loads_texts:
  "demo_loads demo_text = Some demo_record" "demo_loads later_text = Some later_record"
  using demo_text_neq by (simp_all add: demo_loads_def)







text \<open>
  C9: a missing metadata file is the only thing \<^verbatim>\<open>list_versions\<close> tolerates. When some
  directory of the model holds a metadata file that does not load as JSON, or loads to a
  value without the key \<^verbatim>\<open>created_at\<close>, the call raises, and so does
  \<^verbatim>\<open>get_latest_version\<close>: no list, partial or other, is returned.
\<close>

theorem list_versions_raises_on_bad_metadata:
  assumes "listdir fs (os_path_join versions_dir [model_name]) = Inr names"
    and "d \<in> set names"
    and "read_file fs (os_path_join (os_path_join versions_dir [model_name])
                         [d, ''metadata.json'']) = Inr text"
    and "case loads text of None \<Rightarrow> True | Some r \<Rightarrow> isl (py_getitem r ''created_at'')"
  shows "isl (list_versions loads fs model_name) \<and>
         isl (get_latest_version loads fs model_name)"
proof -
  let ?md = "os_path_join versions_dir [model_name]"
  let ?p = "os_path_join ?md [d, ''metadata.json'']"
  have ex: "path_exists fs ?p"
    using assms(3) by (rule read_file_exists)
  have "isl (list_versions loads fs model_name)"
  proof (cases "load_versions loads fs ?md names")
    case (Inl e)
    then show ?thesis using assms(1) by (simp add: list_versions_listdir)
  next
    case (Inr vs)
    have l: "map Inr vs =
      map (\<lambda>d. json_load loads fs (os_path_join ?md [d, ''metadata.json'']))
        (filter (\<lambda>d. path_exists fs (os_path_join ?md [d, ''metadata.json''])) names)"
      using load_versions_Inr [OF Inr] by simp
    have "json_load loads fs ?p \<in> set (map Inr vs)"
      unfolding l using assms(2) ex by auto
    then obtain r where r: "json_load loads fs ?p = Inr r" "r \<in> set vs" by auto
    then have "loads text = Some r"
      using assms(3) by (auto simp: json_load_def split: option.splits)
    then have "isl (py_getitem r ''created_at'')" using assms(4) by simp
    then have "isl (py_sorted_reverse (\<lambda>x. py_getitem x ''created_at'') vs)"
      using r(2) by (rule py_sorted_reverse_Inl [rotated])
    then show ?thesis using assms(1) Inr by (simp add: list_versions_listdir)
  qed
  then show ?thesis
    by (auto simp: get_latest_version_def split: sum.splits)
qed

theorem list_versions_raises_on_bad_metadata_witness:
  \<open>read_file broken_fs
     (os_path_join (os_path_join versions_dir [''cut'']) [demo_version, ''metadata.json''])
     = Inr ''{\<newline>  "version": "v2025'' \<and>
   demo_loads ''{\<newline>  "version": "v2025'' = None \<and>
   isl (list_versions demo_loads broken_fs ''cut'') \<and>
   isl (get_latest_version demo_loads broken_fs ''cut'') \<and>
   read_file broken_fs
     (os_path_join (os_path_join versions_dir [''bare'']) [demo_version, ''metadata.json''])
     = Inr ''{}'' \<and>
   demo_loads ''{}'' = Some (JObj []) \<and>
   py_getitem (JObj []) ''created_at'' = Inl KeyError \<and>
   isl (list_versions demo_loads broken_fs ''bare'') \<and>
   isl (get_latest_version demo_loads broken_fs ''bare'')\<close>
proof -
  have a: \<open>listdir broken_fs (os_path_join versions_dir [''cut'']) = Inr [demo_version]\<close>
    \<open>read_file broken_fs
       (os_path_join (os_path_join versions_dir [''cut'']) [demo_version, ''metadata.json''])
       = Inr ''{\<newline>  "version": "v2025''\<close>
    by (simp_all add: fs_eval broken_fs_def demo_version_def)
  have b: \<open>demo_loads ''{\<newline>  "version": "v2025'' = None\<close>
    by (simp add: demo_loads_def demo_text_def later_text_def again_text_def)
  have c: "listdir broken_fs (os_path_join versions_dir [''bare'']) = Inr [demo_version]"
    "read_file broken_fs
       (os_path_join (os_path_join versions_dir [''bare'']) [demo_version, ''metadata.json''])
       = Inr ''{}''"
    by (simp_all add: fs_eval broken_fs_def demo_version_def)
  have d: "demo_loads ''{}'' = Some (JObj [])"
    by (simp add: demo_loads_def demo_text_def later_text_def again_text_def)
  from list_versions_raises_on_bad_metadata [OF a(1) _ a(2), of demo_loads]
    list_versions_raises_on_bad_metadata [OF c(1) _ c(2), of demo_loads]
    a b c d
  show ?thesis by simp
qed

subsection \<open>Comparing versions\<close>

lemma py_eq_refl: "py_eq x x"
proof (induction x)
  case (JArr xs)
  then show ?case by (simp add: list_all2_same)
next
  case (JObj kvs)
  have "py_eq x x" if "map_of kvs k = Some x" for k x
  proof -
    have "(k, x) \<in> set kvs" using that by (rule map_of_SomeD)
    then show ?thesis using JObj by fastforce
  qed
  moreover have "map_of kvs k \<noteq> None" if "k \<in> fst ` set kvs" for k
    using that by (simp add: map_of_eq_None_iff)
  ultimately show ?case
    by (auto simp: list_all_iff split: option.splits)
qed simp_all

lemma version_record_version_metadata:
  "version_record (version_metadata version model_name now_meta metadata file_hash file_size)"
  "version_record (mv_version_metadata version model_name now_meta metadata file_hash)"
  by (simp_all add: version_record_def version_metadata_def mv_version_metadata_def)

lemma version_entry_record:
  "version_record r \<Longrightarrow> \<not> isl (version_entry v r)"
  by (cases r)
     (auto simp: version_record_def version_entry_def rbind_def
           split: option.splits json.splits)

lemma comparison_entry_self:
  assumes "version_record r"
  shows "comparison_entry r r =
           Inr (JObj [(''same_hash'', JBool True), (''size_difference'', JInt 0),
                      (''time_difference'', JBool False)])"
proof -
  from assms obtain kvs s h where r: "r = JObj kvs"
    and c: "map_of kvs ''created_at'' = Some (JStr s)"
    and h: "map_of kvs ''file_hash'' = Some h"
    by (cases r) (auto simp: version_record_def split: option.splits json.splits)
  have sz: "\<exists>n i. py_get r ''file_size_bytes'' (JInt 0) = Inr n \<and> num_of n = Some i"
    using assms r by (auto simp: version_record_def split: option.splits)
  then obtain n i where n: "py_get r ''file_size_bytes'' (JInt 0) = Inr n" "num_of n = Some i"
    by blast
  show ?thesis
    using r c h n
    by (simp add: comparison_entry_def rbind_def py_sub_def py_gt_def py_eq_refl)
qed

text \<open>
  C7: comparing a version with itself, when its metadata file is present and holds a
  version record, reports \<^verbatim>\<open>same_hash\<close> true and \<^verbatim>\<open>size_difference\<close> 0 (and
  \<^verbatim>\<open>time_difference\<close> false).
\<close>

theorem compare_version_with_itself:
  assumes "load_metadata loads fs model_name v = Inr r"
    and "version_record r"
  shows "case get_version_comparison loads fs model_name v v of
           Inl e \<Rightarrow> False
         | Inr result \<Rightarrow>
             py_getitem result ''comparison'' =
               Inr (JObj [(''same_hash'', JBool True), (''size_difference'', JInt 0),
                          (''time_difference'', JBool False)])"
proof -
  have t: "py_truthy r"
    using assms(2) by (cases r) (auto simp: version_record_def split: option.splits)
  obtain e where e: "version_entry v r = Inr e"
    using version_entry_record [OF assms(2), of v] by (cases "version_entry v r") auto
  show ?thesis
    using assms(1) t e comparison_entry_self [OF assms(2)]
    by (simp add: get_version_comparison_def rbind_def)
qed

theorem compare_version_with_itself_witness:
  "load_metadata demo_loads store_fs ''demo'' demo_version = Inr demo_record \<and>
   version_record demo_record \<and>
   rbind (get_version_comparison demo_loads store_fs ''demo'' demo_version demo_version)
     (\<lambda>result. py_getitem result ''comparison'') =
     Inr (JObj [(''same_hash'', JBool True), (''size_difference'', JInt 0),
                (''time_difference'', JBool False)])"
proof -
  have a: "load_metadata demo_loads store_fs ''demo'' demo_version = Inr demo_record"
    by (simp add: load_metadata_def store_fs_def fs_eval json_load_def demo_loads_texts
        demo_version_def later_version_def)
  have b: "version_record demo_record"
    unfolding demo_record_def by (rule version_record_version_metadata)
  show ?thesis
    using a b compare_version_with_itself [OF a b]
    by (simp add: rbind_def split: sum.splits)
qed

subsection \<open>When \<^verbatim>\<open>create_version\<close> succeeds\<close>
















lemma write_file_ok:
  assumes "resolve fs p = Inr q" and "\<And>es. lookup (root fs) q \<noteq> Some (Dir es)"
  shows "write_file fs p c = Inr (fs\<lparr>root := put_at (root fs) q (File c)\<rparr>)"
  using assms by (auto simp: write_file_def split: option.splits node.splits)


lemma create_version_tmp:
  "create_version demo_dumps tmp_fs demo_time demo_time ''demo'' ''tmp/a.pkl'' (JObj [])
     = (Inr demo_version, tmp_fs1)"
proof -
  have r: "read_file tmp_fs ''tmp/a.pkl'' = Inr ''X''"
    by (simp add: fs_eval tmp_fs_def)
  have g: "generate_version_id tmp_fs demo_time ''tmp/a.pkl'' = Inr demo_version"
    using r by (rule generate_version_id_demo)
  show ?thesis
    unfolding create_version_def g
    by (simp add: fs_eval tmp_fs_def tmp_fs1_def demo_version_def
        calculate_file_hash_def read_chunks_X hash_update_def hexdigest_def
        demo_dumps_demo_record [unfolded demo_version_def])
qed




subsection \<open>Rollback\<close>

lemma rollback_copies:
  assumes ld: "listdir fs (os_path_join versions_dir [model_name, version_id]) = Inr names"
    and fl: "filter (\<lambda>f. endswith f ''.pkl'') names = f # rest"
    and src: "read_file fs (os_path_join (os_path_join versions_dir [model_name, version_id]) [f])
                = Inr c"
    and dst: "resolve fs (os_path_join ''models'' [model_name @ ''_model.pkl'']) = Inr qd"
    and nd: "\<not> path_isdir fs (os_path_join ''models'' [model_name @ ''_model.pkl''])"
    and ns: "\<not> samefile fs (os_path_join (os_path_join versions_dir [model_name, version_id]) [f])
                 (os_path_join ''models'' [model_name @ ''_model.pkl''])"
  shows "\<exists>fs'. rollback_to_version fs model_name version_id = (Inr True, fs') \<and>
           write_file fs (os_path_join ''models'' [model_name @ ''_model.pkl'']) c = Inr fs'"
proof -
  let ?dest = "os_path_join ''models'' [model_name @ ''_model.pkl'']"
  have "lookup (root fs) qd \<noteq> Some (Dir es)" for es
    using nd dst by (auto simp: path_isdir_def stat_def)
  with dst have w: "write_file fs ?dest c = Inr (fs\<lparr>root := put_at (root fs) qd (File c)\<rparr>)"
    by (rule write_file_ok)
  have "copy2 fs (os_path_join (os_path_join versions_dir [model_name, version_id]) [f]) ?dest
          = Inr (fs\<lparr>root := put_at (root fs) qd (File c)\<rparr>)"
    using nd ns src w by (simp add: copy2_def)
  then show ?thesis
    using ld fl w listdir_exists [OF ld] by (simp add: rollback_to_version_def)
qed

text \<open>
  C3 (as stated): \<^verbatim>\<open>rollback_to_version\<close> fails when the version directory does not exist,
  returns false when the directory holds no \<^verbatim>\<open>.pkl\<close> file, and otherwise copies the first
  such file over the active artifact and succeeds. The last part fails: the class never
  creates the directory \<^verbatim>\<open>models\<close>. In the state \<open>tmp_fs1\<close>, which \<^verbatim>\<open>create_version\<close> leaves
  after versioning \<^verbatim>\<open>tmp/a.pkl\<close>, the version directory holds \<^verbatim>\<open>a.pkl\<close> and the rollback
  raises \<^verbatim>\<open>FileNotFoundError\<close>.
\<close>

theorem rollback_to_version_counterexample:
  "create_version demo_dumps tmp_fs demo_time demo_time ''demo'' ''tmp/a.pkl'' (JObj [])
     = (Inr demo_version, tmp_fs1) \<and>
   listdir tmp_fs1 (os_path_join versions_dir [''demo'', demo_version])
     = Inr [''a.pkl'', ''metadata.json''] \<and>
   endswith ''a.pkl'' ''.pkl'' \<and>
   rollback_to_version tmp_fs1 ''demo'' demo_version = (Inl FileNotFoundError, tmp_fs1)"
proof -
  have "rollback_to_version tmp_fs1 ''demo'' demo_version = (Inl FileNotFoundError, tmp_fs1)"
    by (simp add: rollback_to_version_def tmp_fs1_def fs_eval endswith_def demo_version_def)
  then show ?thesis
    using create_version_tmp
    by (simp add: tmp_fs1_def fs_eval endswith_def demo_version_def)
qed

text \<open>
  C3 (amended): \<^verbatim>\<open>rollback_to_version\<close> raises \<^verbatim>\<open>ValueError\<close> and changes nothing when the
  version directory does not exist; it returns false and changes nothing when the
  directory holds no name ending in \<^verbatim>\<open>.pkl\<close>; otherwise, when the first such name is a
  plain file, every directory on the way to the active artifact exists, the active
  artifact path is not a directory and not that very file, it returns true, the active
  artifact then has the content of that file (whatever it held before), and nothing
  changes but the active artifact and the listing of the directories above it.
\<close>

theorem rollback_to_version_cases:
  "(\<not> path_exists fs (os_path_join versions_dir [model_name, version_id]) \<longrightarrow>
      rollback_to_version fs model_name version_id = (Inl ValueError, fs)) \<and>
   (listdir fs (os_path_join versions_dir [model_name, version_id]) = Inr names \<and>
    filter (\<lambda>f. endswith f ''.pkl'') names = [] \<longrightarrow>
      rollback_to_version fs model_name version_id = (Inr False, fs)) \<and>
   (listdir fs (os_path_join versions_dir [model_name, version_id]) = Inr names \<and>
    filter (\<lambda>f. endswith f ''.pkl'') names = f # rest \<and>
    read_file fs (os_path_join (os_path_join versions_dir [model_name, version_id]) [f])
      = Inr c \<and>
    resolve fs (os_path_join ''models'' [model_name @ ''_model.pkl'']) = Inr qd \<and>
    \<not> path_isdir fs (os_path_join ''models'' [model_name @ ''_model.pkl'']) \<and>
    \<not> samefile fs (os_path_join (os_path_join versions_dir [model_name, version_id]) [f])
        (os_path_join ''models'' [model_name @ ''_model.pkl'']) \<longrightarrow>
      fst (rollback_to_version fs model_name version_id) = Inr True \<and>
      read_file (snd (rollback_to_version fs model_name version_id))
          (os_path_join ''models'' [model_name @ ''_model.pkl'']) = Inr c \<and>
      cwd (snd (rollback_to_version fs model_name version_id)) = cwd fs \<and>
      (\<forall>q. \<not> prefix q qd \<longrightarrow>
           lookup (root (snd (rollback_to_version fs model_name version_id))) q
             = lookup (root fs) q))"
proof (intro conjI impI)
  let ?vd = "os_path_join versions_dir [model_name, version_id]"
  let ?dest = "os_path_join ''models'' [model_name @ ''_model.pkl'']"
  {
    assume "\<not> path_exists fs ?vd"
    then show "rollback_to_version fs model_name version_id = (Inl ValueError, fs)"
      by (simp add: rollback_to_version_def)
  next
    assume a: "listdir fs ?vd = Inr names \<and> filter (\<lambda>f. endswith f ''.pkl'') names = []"
    then have "path_exists fs ?vd" using listdir_exists by blast
    then show "rollback_to_version fs model_name version_id = (Inr False, fs)"
      using a by (simp add: rollback_to_version_def)
  next
    assume a: "listdir fs ?vd = Inr names \<and>
      filter (\<lambda>f. endswith f ''.pkl'') names = f # rest \<and>
      read_file fs (os_path_join ?vd [f]) = Inr c \<and>
      resolve fs ?dest = Inr qd \<and>
      \<not> path_isdir fs ?dest \<and>
      \<not> samefile fs (os_path_join ?vd [f]) ?dest"
    then obtain fs' where r: "rollback_to_version fs model_name version_id = (Inr True, fs')"
      and w: "write_file fs ?dest c = Inr fs'"
      using rollback_copies [of fs model_name version_id names f rest c qd] by blast
    from a have q: "resolve fs ?dest = Inr qd" by simp
    show "fst (rollback_to_version fs model_name version_id) = Inr True"
      using r by simp
    show "read_file (snd (rollback_to_version fs model_name version_id)) ?dest = Inr c"
      using r write_file_read [OF w] by simp
    show "cwd (snd (rollback_to_version fs model_name version_id)) = cwd fs"
      using r write_file_cwd [OF w] by simp
    show "\<forall>q. \<not> prefix q qd \<longrightarrow>
           lookup (root (snd (rollback_to_version fs model_name version_id))) q
             = lookup (root fs) q"
      using r write_file_frame [OF w q] by simp
  }
qed

theorem rollback_to_version_cases_witness:
  "\<not> path_exists store_fs (os_path_join versions_dir [''demo'', ''nonexistent'']) \<and>
   rollback_to_version store_fs ''demo'' ''nonexistent'' = (Inl ValueError, store_fs) \<and>
   listdir store_fs (os_path_join versions_dir [''demo'', ''scratch'']) = Inr [] \<and>
   rollback_to_version store_fs ''demo'' ''scratch'' = (Inr False, store_fs) \<and>
   listdir store_fs (os_path_join versions_dir [''demo'', demo_version])
     = Inr [''demo_model.pkl'', ''metadata.json''] \<and>
   read_file store_fs
     (os_path_join (os_path_join versions_dir [''demo'', demo_version]) [''demo_model.pkl''])
     = Inr ''X'' \<and>
   read_file store_fs (os_path_join ''models'' [''demo'' @ ''_model.pkl'']) = Inr ''Y'' \<and>
   fst (rollback_to_version store_fs ''demo'' demo_version) = Inr True \<and>
   read_file (snd (rollback_to_version store_fs ''demo'' demo_version))
     (os_path_join ''models'' [''demo'' @ ''_model.pkl'']) = Inr ''X'' \<and>
   lookup (root (snd (rollback_to_version store_fs ''demo'' demo_version)))
       [''srv'', ''model_versions'']
     = lookup (root store_fs) [''srv'', ''model_versions'']"
proof -
  have a: "\<not> path_exists store_fs (os_path_join versions_dir [''demo'', ''nonexistent''])"
    by (simp add: fs_eval store_fs_def demo_version_def later_version_def)
  have b: "listdir store_fs (os_path_join versions_dir [''demo'', ''scratch'']) = Inr []"
    "filter (\<lambda>f. endswith f ''.pkl'') [] = []"
    by (simp_all add: fs_eval store_fs_def demo_version_def later_version_def)
  have c: "listdir store_fs (os_path_join versions_dir [''demo'', demo_version])
             = Inr [''demo_model.pkl'', ''metadata.json'']"
    "filter (\<lambda>f. endswith f ''.pkl'') [''demo_model.pkl'', ''metadata.json'']
       = [''demo_model.pkl'']"
    "read_file store_fs
       (os_path_join (os_path_join versions_dir [''demo'', demo_version]) [''demo_model.pkl''])
       = Inr ''X''"
    "resolve store_fs (os_path_join ''models'' [''demo'' @ ''_model.pkl''])
       = Inr [''srv'', ''models'', ''demo_model.pkl'']"
    "\<not> path_isdir store_fs (os_path_join ''models'' [''demo'' @ ''_model.pkl''])"
    "\<not> samefile store_fs
         (os_path_join (os_path_join versions_dir [''demo'', demo_version]) [''demo_model.pkl''])
         (os_path_join ''models'' [''demo'' @ ''_model.pkl''])"
    by (simp_all add: fs_eval store_fs_def endswith_def demo_version_def)
  have d: "read_file store_fs (os_path_join ''models'' [''demo'' @ ''_model.pkl'']) = Inr ''Y''"
    by (simp add: fs_eval store_fs_def)
  have e: "\<not> prefix [''srv'', ''model_versions''] [''srv'', ''models'', ''demo_model.pkl'']"
    by simp
  from a b c d e
    rollback_to_version_cases [of store_fs "''demo''" "''nonexistent''"]
    rollback_to_version_cases [of store_fs "''demo''" "''scratch''" "[]"]
    rollback_to_version_cases [of store_fs "''demo''" demo_version
      "[''demo_model.pkl'', ''metadata.json'']"
      "''demo_model.pkl''" "[]" "''X''" "[''srv'', ''models'', ''demo_model.pkl'']"]
  show ?thesis by simp
qed

end
